theory Spec2Isabelle
  imports Main "HOL-Library.Sublist" "HOL-Library.AList"
begin

section \<open>Character field generation: the prompt assembler of \<open>src/generate.ts\<close>\<close>

text \<open>
  The theory embeds \<open>runCharacterFieldGeneration\<close>. JavaScript strings are lists of code
  units, written as \<^typ>\<open>string\<close>; a \<^typ>\<open>char\<close> stands for a code unit below 256. A
  JavaScript object used as a dictionary (\<open>Record<string, T>\<close>) is the list of its entries in
  the order of \<open>Object.entries\<close>, looked up with \<^const>\<open>map_of\<close>. The services of the host
  (profile registry, parameter substitution, prompt builder, template engine, request service)
  and the response parser of \<open>./parsers.js\<close> are parameters, collected in a record. Every
  call of a host service is written to a trace, so that "before any interaction" is a statement
  about the trace.
\<close>

subsection \<open>Strings\<close>

text \<open>
  \<open>String.prototype.replaceAll(searchString, replaceValue)\<close> with a string pattern: the
  occurrences are found from left to right, the search resuming \<open>max(1, searchLength)\<close> code
  units after the start of the last match, so matches do not overlap. For the empty pattern
  there is a match at every position, the end included, and every code unit is kept. The
  replacement text is taken
  literally, which is what JavaScript does when it holds no \<open>$\<close>; none of the four
  replacement texts of the source holds one.
\<close>

fun replaceAll_scan :: "'a list \<Rightarrow> 'a list \<Rightarrow> 'a list \<Rightarrow> 'a list" where
  "replaceAll_scan p r [] = []"
| "replaceAll_scan p r (x # xs) =
     (if p \<noteq> [] \<and> prefix p (x # xs) then r @ replaceAll_scan p r (drop (length p - 1) xs)
      else x # replaceAll_scan p r xs)"

definition replaceAll :: "'a list \<Rightarrow> 'a list \<Rightarrow> 'a list \<Rightarrow> 'a list" where
  "replaceAll p r s =
     (if p = [] then r @ concat (map (\<lambda>c. c # r) s) else replaceAll_scan p r s)"

text \<open>
  White space and line terminators of ECMAScript among the code units below 256:
  TAB, LF, VT, FF, CR, SP and NBSP. \<open>String.prototype.trim\<close> removes them at both ends;
  \<open>parseInt\<close> skips them at the start.
\<close>

definition isWhiteSpace :: "char \<Rightarrow> bool" where
  "isWhiteSpace c = (c \<in> set [CHR 0x09, CHR 0x0A, CHR 0x0B, CHR 0x0C, CHR 0x0D, CHR 0x20, CHR 0xA0])"

definition trim :: "string \<Rightarrow> string" where
  "trim s = rev (dropWhile isWhiteSpace (rev (dropWhile isWhiteSpace s)))"

text \<open>
  \<open>parseInt(string)\<close> without a radix: skip leading white space, read one sign, read the
  prefix \<open>0x\<close> or \<open>0X\<close> (then the radix is 16, otherwise 10), take the longest run of digits
  of the radix and ignore whatever follows. No digit gives \<open>NaN\<close>, which is \<^const>\<open>None\<close>
  here. The result of the source is a double; it is the exact integer below \<open>2^53\<close> and is
  never smaller than \<open>2^53\<close> above it, so as an index into an array (whose length is below
  \<open>2^32\<close>) the double and the integer select the same element or both none. Minus zero is
  the index \<open>0\<close>.
\<close>

definition digitValue :: "char \<Rightarrow> nat option" where
  "digitValue c =
     (let n = of_char c :: nat in
      if 48 \<le> n \<and> n \<le> 57 then Some (n - 48)
      else if 97 \<le> n \<and> n \<le> 122 then Some (n - 87)
      else if 65 \<le> n \<and> n \<le> 90 then Some (n - 55)
      else None)"

definition isRadixDigit :: "nat \<Rightarrow> char \<Rightarrow> bool" where
  "isRadixDigit R c = (case digitValue c of None \<Rightarrow> False | Some d \<Rightarrow> d < R)"

definition radixValue :: "nat \<Rightarrow> string \<Rightarrow> int" where
  "radixValue R Z = foldl (\<lambda>acc c. acc * int R + int (the (digitValue c))) 0 Z"

definition parseInt :: "string \<Rightarrow> int option" where
  "parseInt inputString =
     (let S = dropWhile isWhiteSpace inputString;
          sign = (if S \<noteq> [] \<and> hd S = CHR ''-'' then - 1 else 1 :: int);
          S1 = (if S \<noteq> [] \<and> (hd S = CHR ''+'' \<or> hd S = CHR ''-'') then tl S else S);
          hex = (2 \<le> length S1 \<and> (take 2 S1 = ''0x'' \<or> take 2 S1 = ''0X''));
          R = (if hex then 16 else 10 :: nat);
          S2 = (if hex then drop 2 S1 else S1);
          Z = takeWhile (isRadixDigit R) S2
      in if Z = [] then None else Some (sign * radixValue R Z))"

subsection \<open>Plain objects\<close>

text \<open>
  A plain object used as a dictionary has its own properties and, through its prototype, the
  members of \<open>Object.prototype\<close>. Reading \<open>obj[k]\<close> gives the own property when there is
  one; otherwise, for the name of a member of \<open>Object.prototype\<close>, it gives that member (a
  function, or for \<open>__proto__\<close> the prototype itself: a truthy value that has none of the
  properties \<open>content\<close>, \<open>selected\<close> or \<open>prompt\<close>); otherwise \<open>undefined\<close>.
\<close>

definition objectPrototypeMembers :: "string list" where
  "objectPrototypeMembers =
     [''constructor'', ''__defineGetter__'', ''__defineSetter__'', ''hasOwnProperty'',
      ''__lookupGetter__'', ''__lookupSetter__'', ''isPrototypeOf'', ''propertyIsEnumerable'',
      ''toString'', ''valueOf'', ''__proto__'', ''toLocaleString'']"

datatype 'v property = Own 'v | Inherited | Undefined

definition getProperty :: "(string \<rightharpoonup> 'v) \<Rightarrow> string \<Rightarrow> 'v property" where
  "getProperty obj k =
     (case obj k of
        Some v \<Rightarrow> Own v
      | None \<Rightarrow> if k \<in> set objectPrototypeMembers then Inherited else Undefined)"

text \<open>
  The own properties of an object, in the order of \<open>Object.entries\<close>: the array indexes
  (canonical decimal numerals below \<open>2^32 - 1\<close>) in ascending order, then the other names
  in the order of their creation. \<open>defineOwn\<close> creates or overwrites an own property, as
  \<open>Object.fromEntries\<close> does for each pair: an existing key keeps its place, a new array
  index goes to its place among the indexes, any other new key goes to the end.
\<close>

definition isArrayIndex :: "string \<Rightarrow> bool" where
  "isArrayIndex k =
     (k \<noteq> [] \<and> list_all (isRadixDigit 10) k
      \<and> (if hd k = CHR ''0'' then k = ''0'' else True)
      \<and> radixValue 10 k < 4294967295)"

fun insertIndex :: "string \<Rightarrow> 'v \<Rightarrow> (string \<times> 'v) list \<Rightarrow> (string \<times> 'v) list" where
  "insertIndex k v [] = [(k, v)]"
| "insertIndex k v (kv # rest) =
     (if isArrayIndex (fst kv) \<and> radixValue 10 (fst kv) < radixValue 10 k
      then kv # insertIndex k v rest
      else (k, v) # kv # rest)"

definition defineOwn :: "(string \<times> 'v) list \<Rightarrow> string \<Rightarrow> 'v \<Rightarrow> (string \<times> 'v) list" where
  "defineOwn obj k v =
     (if k \<in> set (map fst obj) then AList.update k v obj
      else if isArrayIndex k then insertIndex k v obj
      else obj @ [(k, v)])"

text \<open>
  \<open>obj[k] = v\<close> on an object made by the literal \<open>{}\<close>, for a value \<open>v\<close> that is an
  object. The name \<open>__proto__\<close> is an accessor of \<open>Object.prototype\<close>: the assignment
  runs its setter, which replaces the prototype of \<open>obj\<close> and creates no own property. Every
  other name becomes an own property.
\<close>

definition assign :: "(string \<times> 'v) list \<Rightarrow> string \<Rightarrow> 'v \<Rightarrow> (string \<times> 'v) list" where
  "assign obj k v = (if k = ''__proto__'' then obj else defineOwn obj k v)"

definition fromEntries :: "(string \<times> 'v) list \<Rightarrow> (string \<times> 'v) list" where
  "fromEntries kvs = foldl (\<lambda>obj (k, v). defineOwn obj k v) [] kvs"

subsection \<open>Data model\<close>

text \<open>\<open>MessageRole\<close> of \<open>./settings.js\<close> and the roles of the messages of the host.\<close>

datatype role = system | user | assistant

text \<open>
  \<open>Message\<close>: a role and a content. The messages of the base prompt builder may carry more
  than these two fields, so they are of the extensible type \<open>'x message_scheme\<close>.
\<close>

record message =
  role :: role
  content :: string

text \<open>\<open>Character\<close> and \<open>WIEntry\<close> of the host library: passed through to the templates.\<close>

record character =
  character_name :: string
  character_description :: string

record WIEntry =
  uid :: nat
  entry_content :: string
  disable :: bool

text \<open>
  \<open>CharacterField\<close>. The declared type of \<open>prompt\<close> is \<open>string\<close>; the source reads it
  with \<open>?.\<close> and \<open>??\<close>, so a nullish prompt is \<^const>\<open>None\<close>.
\<close>

record CharacterField =
  prompt :: "string option"
  field_value :: string
  label :: string

record Session =
  selectedCharacterIndexes :: "string list"
  selectedWorldNames :: "string list"
  session_fields :: "(string \<times> CharacterField) list"
  draftFields :: "(string \<times> CharacterField) list"

record prompt_setting =
  prompt_content :: string

record main_context =
  promptName :: string
  context_role :: role

datatype output_format = xml | json | none

record 'o RunCharacterFieldGenerationParams =
  profileId :: string
  userPrompt :: string
  buildPromptOptions :: 'o
  session :: Session
  allCharacters :: "character list"
  entriesGroupByWorldName :: "(string \<times> WIEntry list) list"
  promptSettings :: "string \<rightharpoonup> prompt_setting"
  formatDescription :: string
  mainContextList :: "main_context list"
  maxResponseToken :: int
  targetField :: string
  outputFormat :: output_format

text \<open>The template context \<open>templateData\<close>, one field for each key the source assigns.\<close>

record all_fields =
  core :: "(string \<times> string) list"
  draft :: "(string \<times> string) list"

record template_data =
  td_userInstructions :: string
  td_fieldSpecificInstructions :: "string option"
  td_targetField :: string
  td_activeFormatInstructions :: string
  td_char :: string
  td_user :: string
  td_characters :: "character list"
  td_lorebooks :: "(string \<times> WIEntry list) list"
  td_fields :: all_fields

text \<open>
  Errors. \<open>Error msg\<close> is \<open>new Error(msg)\<close>; \<open>TypeError p\<close> is the error of the runtime
  when the property \<open>p\<close> is read from \<open>undefined\<close>. A host service fails with whatever
  error it returns.
\<close>

datatype error = Error string | TypeError string

text \<open>
  The host. \<open>connectionManager\<close> and its \<open>profiles\<close> may be undefined (the source reads
  both with \<open>?.\<close>); \<open>api\<close> of a profile and \<open>selected\<close> of an entry of
  \<open>CONNECT_API_MAP\<close> may be undefined; \<open>CONNECT_API_MAP\<close> is a dictionary, so a key may
  be absent from it. \<open>name1\<close> and \<open>name2\<close> are the imports of the host configuration.
\<close>

record profile =
  profile_id :: string
  profile_name :: string
  api :: "string option"

record connection_manager =
  profiles :: "profile list option"

record api_map_entry =
  selected :: "string option"

record ('o, 'x) host =
  connectionManager :: "connection_manager option"
  CONNECT_API_MAP :: "string \<rightharpoonup> api_map_entry"
  substituteParams :: "string \<Rightarrow> string"
  buildPrompt :: "string \<Rightarrow> 'o \<Rightarrow> error + 'x message_scheme list"
  Handlebars_compile :: "string \<Rightarrow> template_data \<Rightarrow> error + string"
  sendRequest :: "string \<Rightarrow> message list \<Rightarrow> int \<Rightarrow> error + string"
  parseResponse :: "string \<Rightarrow> output_format \<Rightarrow> error + string"
  name1 :: "string option"
  name2 :: "string option"

text \<open>The calls of host services, in the order they are made.\<close>

datatype event =
    SubstituteParams string
  | BuildPrompt string
  | Compile "string option"
  | SendRequest string "message list" int

subsection \<open>Profile and backend (lines 83 to 96)\<close>

text \<open>
  \<open>connectionManager?.profiles?.find((p) => p.id === profileId)\<close>: the first profile with
  the identifier, \<open>undefined\<close> when there is none or when the registry itself is undefined.
\<close>

definition findProfile :: "('o, 'x) host \<Rightarrow> string \<Rightarrow> profile option" where
  "findProfile h pid =
     (case connectionManager h of
        None \<Rightarrow> None
      | Some cm \<Rightarrow> (case profiles cm of
                     None \<Rightarrow> None
                   | Some ps \<Rightarrow> List.find (\<lambda>p. profile_id p = pid) ps))"

definition resolveProfile :: "('o, 'x) host \<Rightarrow> string \<Rightarrow> error + profile" where
  "resolveProfile h pid =
     (if pid = [] then Inl (Error ''No connection profile selected.'')
      else case findProfile h pid of
             None \<Rightarrow> Inl (Error (''Connection profile with ID '' @ [CHR 0x22] @ pid @ [CHR 0x22] @ '' not found.''))
           | Some p \<Rightarrow> Inr p)"

text \<open>
  \<open>profile.api ? CONNECT_API_MAP[profile.api].selected : undefined\<close>. An undefined or
  empty \<open>api\<close> is falsy. \<open>CONNECT_API_MAP\<close> is a plain object: when \<open>api\<close> is neither
  an own key nor the name of an inherited member, the lookup gives \<open>undefined\<close> and reading
  \<open>selected\<close> from it throws; an inherited member has no \<open>selected\<close>.
\<close>

definition selectedApi :: "('o, 'x) host \<Rightarrow> profile \<Rightarrow> error + string option" where
  "selectedApi h p =
     (case api p of
        None \<Rightarrow> Inr None
      | Some a \<Rightarrow> if a = [] then Inr None
                  else (case getProperty (CONNECT_API_MAP h) a of
                          Undefined \<Rightarrow> Inl (TypeError ''selected'')
                        | Inherited \<Rightarrow> Inr None
                        | Own e \<Rightarrow> Inr (selected e)))"

definition resolveSelectedApi :: "('o, 'x) host \<Rightarrow> profile \<Rightarrow> error + string" where
  "resolveSelectedApi h p =
     (case selectedApi h p of
        Inl e \<Rightarrow> Inl e
      | Inr sel \<Rightarrow>
          if sel = None \<or> sel = Some []
          then Inl (Error (''Could not determine API for profile '' @ [CHR 0x22] @ profile_name p @ [CHR 0x22] @ ''.''))
          else Inr (the sel))"

subsection \<open>The template context (lines 98 to 158)\<close>

text \<open>
  \<open>session.draftFields[targetField]?.prompt ?? session.fields[targetField]?.prompt\<close>.
  An inherited member read under the name of the target field has no \<open>prompt\<close>, so it
  counts like a missing key.
\<close>

definition fieldSpecificInstructions :: "Session \<Rightarrow> string \<Rightarrow> string option" where
  "fieldSpecificInstructions s tf =
     (case (case map_of (draftFields s) tf of None \<Rightarrow> None | Some f \<Rightarrow> prompt f) of
        Some p \<Rightarrow> Some p
      | None \<Rightarrow> (case map_of (session_fields s) tf of None \<Rightarrow> None | Some f \<Rightarrow> prompt f))"

text \<open>
  The \<open>forEach\<close> of lines 114 to 120. \<open>allCharacters[n]\<close> is \<open>undefined\<close> for \<open>NaN\<close>,
  for a negative \<open>n\<close> and for \<open>n\<close> from the length on; a character is an object, hence
  truthy.
\<close>

definition charactersData :: "string list \<Rightarrow> character list \<Rightarrow> character list" where
  "charactersData charIndexes allChars =
     foldl (\<lambda>acc charIndex.
              case parseInt charIndex of
                None \<Rightarrow> acc
              | Some n \<Rightarrow> if 0 \<le> n \<and> n < int (length allChars) then acc @ [allChars ! nat n]
                          else acc)
           [] charIndexes"

text \<open>
  Lines 127 to 137: \<open>filter\<close> on the entries of the object, then one assignment each
  to the object \<open>lorebooksData\<close>, which starts as \<open>{}\<close>. The list is its own properties.
\<close>

definition lorebooksData :: "(string \<times> WIEntry list) list \<Rightarrow> string list \<Rightarrow> (string \<times> WIEntry list) list" where
  "lorebooksData grouped selectedWorlds =
     foldl (\<lambda>obj (worldName, entries). assign obj worldName (filter (\<lambda>entry. \<not> disable entry) entries))
           []
           (filter (\<lambda>(worldName, entries).
                      length entries > 0 \<and> worldName \<in> set selectedWorlds
                      \<and> list_ex (\<lambda>entry. \<not> disable entry) entries)
                   grouped)"

definition templateData ::
  "('o, 'x) host \<Rightarrow> 'o RunCharacterFieldGenerationParams \<Rightarrow> string \<Rightarrow> template_data" where
  "templateData h ps processedUserPrompt =
     \<lparr> td_userInstructions = processedUserPrompt,
       td_fieldSpecificInstructions = fieldSpecificInstructions (session ps) (targetField ps),
       td_targetField = targetField ps,
       td_activeFormatInstructions = formatDescription ps,
       td_char = (case name1 h of None \<Rightarrow> ''{{char}}'' | Some n \<Rightarrow> n),
       td_user = (case name2 h of None \<Rightarrow> ''{{user}}'' | Some n \<Rightarrow> n),
       td_characters = charactersData (selectedCharacterIndexes (session ps)) (allCharacters ps),
       td_lorebooks = lorebooksData (entriesGroupByWorldName ps) (selectedWorldNames (session ps)),
       td_fields =
         \<lparr> core = fromEntries (map (\<lambda>(_, field). (label field, field_value field)) (session_fields (session ps))),
           draft = fromEntries (map (\<lambda>(_, field). (label field, field_value field)) (draftFields (session ps))) \<rparr> \<rparr>"

subsection \<open>The messages (lines 160 to 189)\<close>

definition userPlaceHolder :: string where
  "userPlaceHolder = ''[[[crec_veryUniqueUserPlaceHolder]]]''"

definition charPlaceHolder :: string where
  "charPlaceHolder = ''[[[crec_veryUniqueCharPlaceHolder]]]''"

text \<open>Lines 180 and 181, before the substitution of the host; lines 183 and 184, after it.\<close>

definition protect :: "string \<Rightarrow> string" where
  "protect c = replaceAll ''{{char}}'' charPlaceHolder (replaceAll ''{{user}}'' userPlaceHolder c)"

definition restore :: "string \<Rightarrow> string" where
  "restore c = replaceAll charPlaceHolder ''{{char}}'' (replaceAll userPlaceHolder ''{{user}}'' c)"

text \<open>Lines 165 to 168: the role and the content of each message of the base builder.\<close>

definition chatHistory :: "'x message_scheme list \<Rightarrow> message list" where
  "chatHistory chatMessages = map (\<lambda>m. \<lparr> role = role m, content = content m \<rparr>) chatMessages"

text \<open>
  \<open>Handlebars.compile(input, options)\<close> checks its input before anything else and throws
  when it is \<open>undefined\<close>; a string goes to the template engine of the host record.
\<close>

definition compileInputError :: error where
  "compileInputError =
     Error ''You must pass a string or Handlebars AST to Handlebars.compile. You passed undefined''"

definition compileTemplate ::
  "('o, 'x) host \<Rightarrow> string option \<Rightarrow> template_data \<Rightarrow> error + string" where
  "compileTemplate h input td =
     (case input of None \<Rightarrow> Inl compileInputError | Some src \<Rightarrow> Handlebars_compile h src td)"

text \<open>
  One round of the loop on the trace and the list \<open>messages\<close>. A \<open>continue\<close> leaves both
  as they are; an error of the template engine ends the call. Line 172 reads
  \<open>promptSettings[mainContext.promptName]\<close> from a plain object: the guard of line 173 lets
  an inherited member through, and its \<open>content\<close> is \<open>undefined\<close>.
\<close>

definition loopBody ::
  "('o, 'x) host \<Rightarrow> 'x message_scheme list \<Rightarrow> (string \<rightharpoonup> prompt_setting) \<Rightarrow> template_data
     \<Rightarrow> main_context \<Rightarrow> event list \<times> message list \<Rightarrow> event list \<times> (error + message list)" where
  "loopBody h chatMessages prompts td mainContext st =
     (case st of (tr, messages) \<Rightarrow>
        if promptName mainContext = ''chatHistory''
        then (tr, Inr (messages @ chatHistory chatMessages))
        else (case getProperty prompts (promptName mainContext) of
                Undefined \<Rightarrow> (tr, Inr messages)
              | found \<Rightarrow>
                  (let input = (case found of Own p \<Rightarrow> Some (prompt_content p) | _ \<Rightarrow> None)
                   in case compileTemplate h input td of
                        Inl e \<Rightarrow> (tr @ [Compile input], Inl e)
                      | Inr rendered \<Rightarrow>
                          (let protected = protect rendered;
                               c = restore (substituteParams h protected);
                               tr' = tr @ [Compile input, SubstituteParams protected]
                           in if c \<noteq> []
                              then (tr', Inr (messages @ [\<lparr> role = context_role mainContext, content = c \<rparr>]))
                              else (tr', Inr messages)))))"

fun forLoop ::
  "('o, 'x) host \<Rightarrow> 'x message_scheme list \<Rightarrow> (string \<rightharpoonup> prompt_setting) \<Rightarrow> template_data
     \<Rightarrow> main_context list \<Rightarrow> event list \<times> message list \<Rightarrow> event list \<times> (error + message list)" where
  "forLoop h chatMessages prompts td [] st = (fst st, Inr (snd st))"
| "forLoop h chatMessages prompts td (mainContext # rest) st =
     (case loopBody h chatMessages prompts td mainContext st of
        (tr, Inl e) \<Rightarrow> (tr, Inl e)
      | (tr, Inr messages) \<Rightarrow> forLoop h chatMessages prompts td rest (tr, messages))"

subsection \<open>The whole call\<close>

text \<open>Lines 83 to 189: everything up to the list \<open>messages\<close> that is sent.\<close>

definition assembleMessages ::
  "('o, 'x) host \<Rightarrow> 'o RunCharacterFieldGenerationParams \<Rightarrow> event list \<times> (error + message list)" where
  "assembleMessages h ps =
     (case resolveProfile h (profileId ps) of
        Inl e \<Rightarrow> ([], Inl e)
      | Inr p \<Rightarrow>
          (let processedUserPrompt = substituteParams h (trim (userPrompt ps));
               tr = [SubstituteParams (trim (userPrompt ps))]
           in case resolveSelectedApi h p of
                Inl e \<Rightarrow> (tr, Inl e)
              | Inr a \<Rightarrow>
                  (case buildPrompt h a (buildPromptOptions ps) of
                     Inl e \<Rightarrow> (tr @ [BuildPrompt a], Inl e)
                   | Inr chatMessages \<Rightarrow>
                       forLoop h chatMessages (promptSettings ps)
                         (templateData h ps processedUserPrompt)
                         (mainContextList ps) (tr @ [BuildPrompt a], []))))"

text \<open>Lines 193 to 204: the request and the parsing of its answer.\<close>

definition runCharacterFieldGeneration ::
  "('o, 'x) host \<Rightarrow> 'o RunCharacterFieldGenerationParams \<Rightarrow> event list \<times> (error + string)" where
  "runCharacterFieldGeneration h ps =
     (case assembleMessages h ps of
        (tr, Inl e) \<Rightarrow> (tr, Inl e)
      | (tr, Inr messages) \<Rightarrow>
          (let tr' = tr @ [SendRequest (profileId ps) messages (maxResponseToken ps)]
           in case sendRequest h (profileId ps) messages (maxResponseToken ps) of
                Inl e \<Rightarrow> (tr', Inl e)
              | Inr responseContent \<Rightarrow> (tr', parseResponse h responseContent (outputFormat ps))))"

subsection \<open>Notions used in the statements\<close>

text \<open>
  Two texts are free of overlap when no occurrence of the one in a string can share a position
  with an occurrence of the other: no non-empty end of the one begins the other or is begun by
  it. Replacing the occurrences of the one then leaves the occurrences of the other in place.
\<close>

definition overlapFree :: "'a list \<Rightarrow> 'a list \<Rightarrow> bool" where
  "overlapFree p t =
     (list_all (\<lambda>u. u = [] \<or> (\<not> prefix u t \<and> \<not> prefix t u)) (suffixes p)
      \<and> list_all (\<lambda>u. u = [] \<or> (\<not> prefix u p \<and> \<not> prefix p u)) (suffixes t))"

text \<open>
  A text is free of borders when none of its proper ends begins it: two occurrences of it in a
  string never share a position.
\<close>

definition borderFree :: "'a list \<Rightarrow> bool" where
  "borderFree r = list_all (\<lambda>u. u = [] \<or> u = r \<or> \<not> prefix u r) (suffixes r)"

text \<open>
  A substitution of the host that acts on \<open>{{user}}\<close> and \<open>{{char}}\<close> only: a text that
  holds neither comes back as it is. What it does to a text that holds one is left open; it
  may replace every occurrence.
\<close>

definition expandsOnlyTokens :: "(string \<Rightarrow> string) \<Rightarrow> bool" where
  "expandsOnlyTokens subst =
     (\<forall>s. \<not> sublist ''{{user}}'' s \<and> \<not> sublist ''{{char}}'' s \<longrightarrow> subst s = s)"

text \<open>
  What the round trip of lines 180 to 184 needs from the substitution of the host: a
  placeholder that goes in comes out.
\<close>

definition preservesPlaceHolders :: "(string \<Rightarrow> string) \<Rightarrow> bool" where
  "preservesPlaceHolders subst =
     (\<forall>s. (sublist userPlaceHolder s \<longrightarrow> sublist userPlaceHolder (subst s))
        \<and> (sublist charPlaceHolder s \<longrightarrow> sublist charPlaceHolder (subst s)))"

text \<open>
  The substitution that replaces every \<open>{{user}}\<close> and every \<open>{{char}}\<close> by the names of
  the persona and of the character, whatever surrounds them.
\<close>

definition substituteParams_stub :: "string \<Rightarrow> string \<Rightarrow> string \<Rightarrow> string" where
  "substituteParams_stub userName charName s =
     replaceAll ''{{char}}'' charName (replaceAll ''{{user}}'' userName s)"

text \<open>
  The string form of an integer: an optional minus sign and decimal digits, at least one.
\<close>

definition isIntegerString :: "string \<Rightarrow> bool" where
  "isIntegerString s =
     (let ds = (if s \<noteq> [] \<and> hd s = CHR ''-'' then tl s else s)
      in ds \<noteq> [] \<and> list_all (isRadixDigit 10) ds)"

text \<open>
  What an entry of the main context list adds to the messages in a call that returns: the
  messages of the base builder, for \<open>chatHistory\<close>; nothing, for a name without a prompt;
  for a prompt, the one message with the role of the entry and the restored text as content,
  or nothing when the restored text is empty.
\<close>

definition entryContribution ::
  "('o, 'x) host \<Rightarrow> 'x message_scheme list \<Rightarrow> (string \<rightharpoonup> prompt_setting) \<Rightarrow> template_data
     \<Rightarrow> main_context \<Rightarrow> message list \<Rightarrow> bool" where
  "entryContribution h chat prompts td mc part =
     (if promptName mc = ''chatHistory'' then part = chatHistory chat
      else case prompts (promptName mc) of
             None \<Rightarrow> part = []
           | Some p \<Rightarrow>
               (case Handlebars_compile h (prompt_content p) td of
                  Inl e \<Rightarrow> False
                | Inr rendered \<Rightarrow>
                    part = (if restore (substituteParams h (protect rendered)) = [] then []
                            else [\<lparr> role = context_role mc,
                                     content = restore (substituteParams h (protect rendered)) \<rparr>])))"

subsection \<open>A host and a request for the examples\<close>

text \<open>
  A template engine for the examples: it knows the expressions \<open>{{user}}\<close>, \<open>{{char}}\<close>
  and \<open>{{targetField}}\<close>. The host has three profiles: one with a known backend, one whose
  \<open>api\<close> is no key of \<open>CONNECT_API_MAP\<close>, one without \<open>api\<close>.
\<close>

definition compile_stub :: "string \<Rightarrow> template_data \<Rightarrow> error + string" where
  "compile_stub src td =
     Inr (replaceAll ''{{targetField}}'' (td_targetField td)
           (replaceAll ''{{char}}'' (td_char td) (replaceAll ''{{user}}'' (td_user td) src)))"

definition exampleHost :: "(unit, unit) host" where
  "exampleHost =
     \<lparr> connectionManager = Some \<lparr> profiles = Some
           [\<lparr> profile_id = ''p1'', profile_name = ''Main'', api = Some ''openai'' \<rparr>,
            \<lparr> profile_id = ''p2'', profile_name = ''Stale'', api = Some ''foo'' \<rparr>,
            \<lparr> profile_id = ''p3'', profile_name = ''Bare'', api = None \<rparr>] \<rparr>,
       CONNECT_API_MAP = [''openai'' \<mapsto> \<lparr> selected = Some ''openai'' \<rparr>],
       substituteParams = substituteParams_stub ''Alice'' ''Bob'',
       buildPrompt = (\<lambda>a opts. Inr [\<lparr> role = system, content = ''Be brief.'' \<rparr>,
                                   \<lparr> role = assistant, content = [] \<rparr>]),
       Handlebars_compile = compile_stub,
       sendRequest = (\<lambda>pid messages tok. Inr ''A tall warrior''),
       parseResponse = (\<lambda>c fmt. Inr c),
       name1 = None,
       name2 = None \<rparr>"

definition alice :: character where
  "alice = \<lparr> character_name = ''Alice'', character_description = ''A knight'' \<rparr>"

definition bob :: character where
  "bob = \<lparr> character_name = ''Bob'', character_description = ''A bard'' \<rparr>"

definition exampleSession :: Session where
  "exampleSession =
     \<lparr> selectedCharacterIndexes = [''1'', ''2'', ''x'', ''0''],
       selectedWorldNames = [''Eldoria'', ''Void''],
       session_fields =
         [(''description'', \<lparr> prompt = Some ''Describe the looks.'', field_value = [], label = ''Description'' \<rparr>)],
       draftFields =
         [(''description'', \<lparr> prompt = Some ''Describe the voice.'', field_value = [], label = ''Voice'' \<rparr>)] \<rparr>"

definition exampleParams :: "unit RunCharacterFieldGenerationParams" where
  "exampleParams =
     \<lparr> profileId = ''p1'',
       userPrompt = '' A hero '',
       buildPromptOptions = (),
       session = exampleSession,
       allCharacters = [alice, bob],
       entriesGroupByWorldName =
         [(''Eldoria'', [\<lparr> uid = 1, entry_content = ''old'', disable = True \<rparr>,
                        \<lparr> uid = 2, entry_content = ''new'', disable = False \<rparr>]),
          (''Void'', [\<lparr> uid = 3, entry_content = ''dark'', disable = True \<rparr>]),
          (''Other'', [\<lparr> uid = 4, entry_content = ''far'', disable = False \<rparr>])],
       promptSettings =
         [''task'' \<mapsto> \<lparr> prompt_content = ''Write {{targetField}} for {{char}}, as {{user}} asks.'' \<rparr>,
          ''blank'' \<mapsto> \<lparr> prompt_content = [] \<rparr>],
       formatDescription = ''Plain text.'',
       mainContextList = [\<lparr> promptName = ''chatHistory'', context_role = user \<rparr>],
       maxResponseToken = 256,
       targetField = ''description'',
       outputFormat = none \<rparr>"

section \<open>Properties\<close>

subsection \<open>Replacing text\<close>

lemma scan_replaces:
  "p \<noteq> [] \<Longrightarrow> sublist p s \<Longrightarrow> sublist r (replaceAll_scan p r s)"
proof (induction s)
  case Nil
  then show ?case by simp
next
  case (Cons x xs)
  show ?case
  proof (cases "prefix p (x # xs)")
    case True
    with Cons.prems show ?thesis by (simp add: sublist_append)
  next
    case False
    with Cons.prems have "sublist p xs" by (simp add: sublist_Cons_right)
    with Cons.IH Cons.prems have "sublist r (replaceAll_scan p r xs)" by simp
    with False show ?thesis by (simp add: sublist_Cons_right)
  qed
qed

lemma scan_keeps_prefix:
  assumes "\<forall>u. suffix u t \<and> u \<noteq> [] \<longrightarrow> \<not> prefix u p \<and> \<not> prefix p u"
    and "prefix t s"
  shows "prefix t (replaceAll_scan p r s)"
  using assms
proof (induction t arbitrary: s)
  case Nil
  then show ?case by simp
next
  case (Cons a t')
  from Cons.prems(2) obtain s' where s: "s = a # s'" and pre: "prefix t' s'"
    by (cases s) auto
  have "\<not> prefix p (a # s')"
  proof
    assume "prefix p (a # s')"
    with Cons.prems(2) s have "prefix p (a # t') \<or> prefix (a # t') p"
      using prefix_same_cases by blast
    moreover have "\<not> prefix (a # t') p \<and> \<not> prefix p (a # t')"
      using Cons.prems(1) by blast
    ultimately show False by blast
  qed
  moreover have "\<forall>u. suffix u t' \<and> u \<noteq> [] \<longrightarrow> \<not> prefix u p \<and> \<not> prefix p u"
    using Cons.prems(1) by (meson suffix_ConsI)
  ultimately show ?case using Cons.IH pre s by simp
qed

lemma overlapFreeD1:
  "overlapFree p t \<Longrightarrow> suffix u p \<Longrightarrow> u \<noteq> [] \<Longrightarrow> \<not> prefix u t \<and> \<not> prefix t u"
  by (auto simp: overlapFree_def list_all_iff)

lemma overlapFreeD2:
  "overlapFree p t \<Longrightarrow> suffix u t \<Longrightarrow> u \<noteq> [] \<Longrightarrow> \<not> prefix u p \<and> \<not> prefix p u"
  by (auto simp: overlapFree_def list_all_iff)

lemma scan_keeps_sublist:
  "overlapFree p t \<Longrightarrow> t \<noteq> [] \<Longrightarrow> sublist t s \<Longrightarrow> sublist t (replaceAll_scan p r s)"
proof (induction p r s rule: replaceAll_scan.induct)
  case (1 p r)
  then show ?case by simp
next
  case (2 p r x xs)
  note free = \<open>overlapFree p t\<close> and ne = \<open>t \<noteq> []\<close>
  show ?case
  proof (cases "p \<noteq> [] \<and> prefix p (x # xs)")
    case True
    then obtain s' where s': "x # xs = p @ s'" by (auto simp: prefix_def)
    with True have d: "drop (length p - 1) xs = s'"
      by (cases p) auto
    from "2.prems" s' have "sublist t (p @ s')" by simp
    then consider "sublist t p" | "sublist t s'"
      | t1 t2 where "t = t1 @ t2" "suffix t1 p" "prefix t2 s'"
      unfolding sublist_append by blast
    then have "sublist t s'"
    proof cases
      case 1
      then obtain u where u: "suffix u p" "prefix t u" by (auto simp: sublist_altdef')
      with ne have "u \<noteq> []" by auto
      with u overlapFreeD1 [OF free] show ?thesis by blast
    next
      case 2
      then show ?thesis .
    next
      case 3
      show ?thesis
      proof (cases "t1 = []")
        case True
        with 3 show ?thesis by auto
      next
        case False
        from 3 have "prefix t1 t" by simp
        with 3 False overlapFreeD1 [OF free, of t1] show ?thesis by blast
      qed
    qed
    with "2.IH"(1) True d free ne have "sublist t (replaceAll_scan p r s')" by simp
    with True d show ?thesis by (simp add: sublist_append)
  next
    case False
    from "2.prems" have "prefix t (x # xs) \<or> sublist t xs" by (simp add: sublist_Cons_right)
    then show ?thesis
    proof
      assume "prefix t (x # xs)"
      moreover have "\<forall>u. suffix u t \<and> u \<noteq> [] \<longrightarrow> \<not> prefix u p \<and> \<not> prefix p u"
        using overlapFreeD2 [OF free] by blast
      ultimately have "prefix t (replaceAll_scan p r (x # xs))"
        by (rule scan_keeps_prefix [rotated])
      then show ?thesis by (rule prefix_imp_sublist)
    next
      assume "sublist t xs"
      with "2.IH"(2) False free ne have "sublist t (replaceAll_scan p r xs)" by simp
      with False show ?thesis by (auto simp add: sublist_Cons_right)
    qed
  qed
qed

text \<open>
  What begins the result of a scan begins its input, for a text that no replacement text can
  touch.
\<close>

lemma scan_prefix_from_input:
  assumes "\<forall>u. suffix u q \<and> u \<noteq> [] \<longrightarrow> \<not> prefix u r \<and> \<not> prefix r u"
    and "prefix q (replaceAll_scan p r s)"
  shows "prefix q s"
  using assms
proof (induction s arbitrary: q)
  case Nil
  then show ?case by simp
next
  case (Cons x xs)
  show ?case
  proof (cases q)
    case Nil
    then show ?thesis by simp
  next
    case (Cons y q')
    show ?thesis
    proof (cases "p \<noteq> [] \<and> prefix p (x # xs)")
      case True
      with Cons.prems(2) have "prefix q (r @ replaceAll_scan p r (drop (length p - 1) xs))"
        by simp
      then have "prefix q r \<or> prefix r q"
        by (metis prefix_append prefixI)
      moreover from Cons.prems(1) \<open>q = y # q'\<close> have "\<not> prefix q r \<and> \<not> prefix r q"
        by blast
      ultimately show ?thesis by blast
    next
      case False
      with Cons.prems(2) \<open>q = y # q'\<close> have y: "y = x" and q': "prefix q' (replaceAll_scan p r xs)"
        by auto
      have "\<forall>u. suffix u q' \<and> u \<noteq> [] \<longrightarrow> \<not> prefix u r \<and> \<not> prefix r u"
        using Cons.prems(1) \<open>q = y # q'\<close> by (meson suffix_ConsI)
      from Cons.IH [OF this q'] y \<open>q = y # q'\<close> show ?thesis by simp
    qed
  qed
qed

text \<open>A block that the pattern cannot touch is copied.\<close>

lemma scan_skips_block:
  assumes "\<forall>u. suffix u b \<and> u \<noteq> [] \<longrightarrow> \<not> prefix u p \<and> \<not> prefix p u"
  shows "replaceAll_scan p r (b @ w) = b @ replaceAll_scan p r w"
  using assms
proof (induction b)
  case Nil
  then show ?case by simp
next
  case (Cons x b')
  have "\<not> prefix p (x # b' @ w)"
  proof
    assume "prefix p (x # b' @ w)"
    then have "prefix p ((x # b') @ w)" by simp
    then have "prefix p (x # b') \<or> prefix (x # b') p"
      by (metis prefix_append prefixI)
    moreover from Cons.prems have "\<not> prefix (x # b') p \<and> \<not> prefix p (x # b')"
      by blast
    ultimately show False by blast
  qed
  moreover have "\<forall>u. suffix u b' \<and> u \<noteq> [] \<longrightarrow> \<not> prefix u p \<and> \<not> prefix p u"
    using Cons.prems by (meson suffix_ConsI)
  ultimately show ?case using Cons.IH by simp
qed

lemma overlapFree_sym: "overlapFree p t \<Longrightarrow> overlapFree t p"
  by (auto simp: overlapFree_def)

lemma scan_skips_overlapFree:
  "overlapFree p b \<Longrightarrow> replaceAll_scan p r (b @ w) = b @ replaceAll_scan p r w"
  by (rule scan_skips_block) (use overlapFreeD2 in blast)

lemma scan_match: "p \<noteq> [] \<Longrightarrow> replaceAll_scan p r (p @ w) = r @ replaceAll_scan p r w"
  by (cases p) simp_all

text \<open>A text that does not occur is not replaced.\<close>

lemma scan_unchanged: "\<not> sublist p s \<Longrightarrow> replaceAll_scan p r s = s"
proof (induction s)
  case Nil
  then show ?case by simp
next
  case (Cons x xs)
  then have "\<not> prefix p (x # xs)" and "\<not> sublist p xs"
    by (auto simp: sublist_Cons_right)
  with Cons.IH show ?case by simp
qed

text \<open>
  After the scan the pattern occurs nowhere, and a text that the replacement cannot touch
  occurs in the result only if it occurred in the input.
\<close>

lemma scan_no_new_sublist:
  "overlapFree t r \<Longrightarrow> t \<noteq> [] \<Longrightarrow> sublist t (replaceAll_scan p r s) \<Longrightarrow> sublist t s"
proof (induction p r s rule: replaceAll_scan.induct)
  case (1 p r)
  then show ?case by simp
next
  case (2 p r x xs)
  note free = \<open>overlapFree t r\<close> and ne = \<open>t \<noteq> []\<close>
  show ?case
  proof (cases "p \<noteq> [] \<and> prefix p (x # xs)")
    case True
    then obtain s' where s': "x # xs = p @ s'" by (auto simp: prefix_def)
    with True have d: "drop (length p - 1) xs = s'"
      by (cases p) auto
    from "2.prems"(3) True d have "sublist t (r @ replaceAll_scan p r s')" by simp
    then consider "sublist t r" | "sublist t (replaceAll_scan p r s')"
      | t1 t2 where "t = t1 @ t2" "suffix t1 r" "prefix t2 (replaceAll_scan p r s')"
      unfolding sublist_append by blast
    then have "sublist t (replaceAll_scan p r s')"
    proof cases
      case 1
      then obtain u where u: "suffix u r" "prefix t u" by (auto simp: sublist_altdef')
      with ne have "u \<noteq> []" by auto
      with u overlapFreeD2 [OF free] show ?thesis by blast
    next
      case 2
      then show ?thesis .
    next
      case 3
      show ?thesis
      proof (cases "t1 = []")
        case True
        with 3 show ?thesis by auto
      next
        case False
        from 3 have "prefix t1 t" by simp
        with 3 False overlapFreeD2 [OF free, of t1] show ?thesis by blast
      qed
    qed
    with "2.IH"(1) True d free ne have "sublist t s'" by simp
    then have "sublist t (p @ s')" by (simp add: sublist_append)
    with s' show ?thesis by simp
  next
    case False
    with "2.prems"(3) have "prefix t (x # replaceAll_scan p r xs) \<or> sublist t (replaceAll_scan p r xs)"
      by (auto simp: sublist_Cons_right)
    then show ?thesis
    proof
      assume a: "prefix t (x # replaceAll_scan p r xs)"
      with False have "prefix t (replaceAll_scan p r (x # xs))" by auto
      moreover have "\<forall>u. suffix u t \<and> u \<noteq> [] \<longrightarrow> \<not> prefix u r \<and> \<not> prefix r u"
        using overlapFreeD1 [OF free] by blast
      ultimately have "prefix t (x # xs)" by (rule scan_prefix_from_input [rotated])
      then show ?thesis by (rule prefix_imp_sublist)
    next
      assume "sublist t (replaceAll_scan p r xs)"
      with "2.IH"(2) False free ne have "sublist t xs" by simp
      then show ?thesis by (simp add: sublist_Cons_right)
    qed
  qed
qed

lemma scan_removes_pattern:
  "overlapFree p r \<Longrightarrow> p \<noteq> [] \<Longrightarrow> \<not> sublist p (replaceAll_scan p r s)"
proof (induction "length s" arbitrary: s rule: less_induct)
  case less
  show ?case
  proof (cases s)
    case Nil
    with less.prems show ?thesis by simp
  next
    case (Cons x xs)
    note free = \<open>overlapFree p r\<close> and ne = \<open>p \<noteq> []\<close>
    show ?thesis
    proof (cases "prefix p (x # xs)")
      case True
      then obtain s' where s': "x # xs = p @ s'" by (auto simp: prefix_def)
      with ne have len: "length s' < length s" using Cons by (metis length_append length_greater_0_conv less_add_same_cancel2)
      have out: "replaceAll_scan p r s = r @ replaceAll_scan p r s'"
        using Cons s' ne by (simp add: scan_match)
      have no: "\<not> sublist p (replaceAll_scan p r s')"
        using less.hyps [OF len free ne] .
      show ?thesis
      proof
        assume "sublist p (replaceAll_scan p r s)"
        with out have "sublist p (r @ replaceAll_scan p r s')" by simp
        then consider "sublist p r" | "sublist p (replaceAll_scan p r s')"
          | t1 t2 where "p = t1 @ t2" "suffix t1 r" "prefix t2 (replaceAll_scan p r s')"
          unfolding sublist_append by blast
        then show False
        proof cases
          case 1
          then obtain u where u: "suffix u r" "prefix p u" by (auto simp: sublist_altdef')
          with ne have "u \<noteq> []" by auto
          with u overlapFreeD2 [OF free] show ?thesis by blast
        next
          case 2
          with no show ?thesis by blast
        next
          case 3
          show ?thesis
          proof (cases "t1 = []")
            case True
            with 3 no show ?thesis by (auto dest: prefix_imp_sublist)
          next
            case False
            from 3 have "prefix t1 p" by simp
            with 3 False overlapFreeD2 [OF free, of t1] show ?thesis by blast
          qed
        qed
      qed
    next
      case False
      have len: "length xs < length s" using Cons by simp
      have no: "\<not> sublist p (replaceAll_scan p r xs)"
        using less.hyps [OF len free ne] .
      have out: "replaceAll_scan p r s = x # replaceAll_scan p r xs"
        using Cons False by simp
      show ?thesis
      proof
        assume "sublist p (replaceAll_scan p r s)"
        with out no have a: "prefix p (replaceAll_scan p r s)"
          by (auto simp: sublist_Cons_right)
        have "\<forall>u. suffix u p \<and> u \<noteq> [] \<longrightarrow> \<not> prefix u r \<and> \<not> prefix r u"
          using overlapFreeD1 [OF free] by blast
        from scan_prefix_from_input [OF this a] Cons False show False by simp
      qed
    qed
  qed
qed

text \<open>
  Replacing a text by a placeholder and the placeholder by the text afterwards is the same as
  replacing the placeholder alone, when the placeholder is free of borders and does not overlap
  the text.
\<close>

lemma borderFreeD:
  "borderFree r \<Longrightarrow> suffix u r \<Longrightarrow> u \<noteq> [] \<Longrightarrow> u \<noteq> r \<Longrightarrow> \<not> prefix u r"
  by (auto simp: borderFree_def list_all_iff)

lemma scan_back:
  assumes free: "overlapFree p r" and bf: "borderFree r" and ne: "p \<noteq> []" "r \<noteq> []"
  shows "replaceAll_scan r p (replaceAll_scan p r s) = replaceAll_scan r p s"
proof (induction "length s" arbitrary: s rule: less_induct)
  case less
  show ?case
  proof (cases s)
    case Nil
    then show ?thesis by simp
  next
    case (Cons x xs)
    consider (p) "prefix p s" | (r) "\<not> prefix p s" "prefix r s" | (n) "\<not> prefix p s" "\<not> prefix r s"
      by blast
    then show ?thesis
    proof cases
      case p
      then obtain s' where s': "s = p @ s'" by (auto simp: prefix_def)
      with ne have len: "length s' < length s" by simp
      have "replaceAll_scan r p (replaceAll_scan p r s)
            = replaceAll_scan r p (r @ replaceAll_scan p r s')"
        using s' ne by (simp add: scan_match)
      also have "\<dots> = p @ replaceAll_scan r p (replaceAll_scan p r s')"
        using ne by (simp add: scan_match)
      also have "\<dots> = p @ replaceAll_scan r p s'"
        using less.hyps [OF len] by simp
      also have "\<dots> = replaceAll_scan r p (p @ s')"
        using scan_skips_overlapFree [OF overlapFree_sym [OF free]] by simp
      finally show ?thesis using s' by simp
    next
      case r
      then obtain s' where s': "s = r @ s'" by (auto simp: prefix_def)
      with ne have len: "length s' < length s" by simp
      have "replaceAll_scan r p (replaceAll_scan p r s)
            = replaceAll_scan r p (r @ replaceAll_scan p r s')"
        using s' scan_skips_overlapFree [OF free] by simp
      also have "\<dots> = p @ replaceAll_scan r p (replaceAll_scan p r s')"
        using ne by (simp add: scan_match)
      also have "\<dots> = p @ replaceAll_scan r p s'"
        using less.hyps [OF len] by simp
      also have "\<dots> = replaceAll_scan r p (r @ s')"
        using ne by (simp add: scan_match)
      finally show ?thesis using s' by simp
    next
      case n
      have len: "length xs < length s" using Cons by simp
      have out: "replaceAll_scan p r s = x # replaceAll_scan p r xs"
        using Cons n by simp
      have "\<not> prefix r (x # replaceAll_scan p r xs)"
      proof
        assume a: "prefix r (x # replaceAll_scan p r xs)"
        with ne obtain r' where r': "r = x # r'" and pr: "prefix r' (replaceAll_scan p r xs)"
          by (cases r) auto
        have "\<forall>u. suffix u r' \<and> u \<noteq> [] \<longrightarrow> \<not> prefix u r \<and> \<not> prefix r u"
        proof (intro allI impI)
          fix u assume u: "suffix u r' \<and> u \<noteq> []"
          then have su: "suffix u r" using r' by (simp add: suffix_ConsI)
          from u r' have lt: "length u < length r"
            by (auto dest: suffix_length_le)
          then have "u \<noteq> r" by auto
          with borderFreeD [OF bf su] u have "\<not> prefix u r" by blast
          moreover from lt have "\<not> prefix r u" by (auto dest: prefix_length_le)
          ultimately show "\<not> prefix u r \<and> \<not> prefix r u" by blast
        qed
        from scan_prefix_from_input [OF this pr] r' have "prefix r (x # xs)" by simp
        with n Cons show False by simp
      qed
      then have "replaceAll_scan r p (x # replaceAll_scan p r xs)
                 = x # replaceAll_scan r p (replaceAll_scan p r xs)"
        by simp
      also have "\<dots> = x # replaceAll_scan r p xs"
        using less.hyps [OF len] by simp
      also have "\<dots> = replaceAll_scan r p (x # xs)"
        using n Cons by simp
      finally show ?thesis using out Cons by simp
    qed
  qed
qed

text \<open>Two replacements whose four texts do not overlap can be made in either order.\<close>

lemma scan_commute:
  assumes ac: "overlapFree a c" and ad: "overlapFree a d" and cb: "overlapFree c b"
    and ne: "a \<noteq> []" "c \<noteq> []"
  shows "replaceAll_scan a b (replaceAll_scan c d s) = replaceAll_scan c d (replaceAll_scan a b s)"
proof (induction "length s" arbitrary: s rule: less_induct)
  case less
  show ?case
  proof (cases s)
    case Nil
    then show ?thesis by simp
  next
    case (Cons x xs)
    consider (a) "prefix a s" | (c) "\<not> prefix a s" "prefix c s" | (n) "\<not> prefix a s" "\<not> prefix c s"
      by blast
    then show ?thesis
    proof cases
      case a
      then obtain s' where s': "s = a @ s'" by (auto simp: prefix_def)
      with ne have len: "length s' < length s" by simp
      have "replaceAll_scan a b (replaceAll_scan c d s)
            = replaceAll_scan a b (a @ replaceAll_scan c d s')"
        using s' scan_skips_overlapFree [OF overlapFree_sym [OF ac]] by simp
      also have "\<dots> = b @ replaceAll_scan a b (replaceAll_scan c d s')"
        using ne by (simp add: scan_match)
      also have "\<dots> = b @ replaceAll_scan c d (replaceAll_scan a b s')"
        using less.hyps [OF len] by simp
      also have "\<dots> = replaceAll_scan c d (b @ replaceAll_scan a b s')"
        using scan_skips_overlapFree [OF cb] by simp
      also have "\<dots> = replaceAll_scan c d (replaceAll_scan a b s)"
        using s' ne by (simp add: scan_match)
      finally show ?thesis .
    next
      case c
      then obtain s' where s': "s = c @ s'" by (auto simp: prefix_def)
      with ne have len: "length s' < length s" by simp
      have "replaceAll_scan a b (replaceAll_scan c d s)
            = replaceAll_scan a b (d @ replaceAll_scan c d s')"
        using s' ne by (simp add: scan_match)
      also have "\<dots> = d @ replaceAll_scan a b (replaceAll_scan c d s')"
        using scan_skips_overlapFree [OF ad] by simp
      also have "\<dots> = d @ replaceAll_scan c d (replaceAll_scan a b s')"
        using less.hyps [OF len] by simp
      also have "\<dots> = replaceAll_scan c d (c @ replaceAll_scan a b s')"
        using ne by (simp add: scan_match)
      also have "\<dots> = replaceAll_scan c d (replaceAll_scan a b s)"
        using s' scan_skips_overlapFree [OF ac] by simp
      finally show ?thesis .
    next
      case n
      have len: "length xs < length s" using Cons by simp
      have l1: "replaceAll_scan c d s = x # replaceAll_scan c d xs"
        and l2: "replaceAll_scan a b s = x # replaceAll_scan a b xs"
        using Cons n by simp_all
      have na: "\<not> prefix a (x # replaceAll_scan c d xs)"
      proof
        assume "prefix a (x # replaceAll_scan c d xs)"
        with l1 have "prefix a (replaceAll_scan c d s)" by simp
        moreover have "\<forall>u. suffix u a \<and> u \<noteq> [] \<longrightarrow> \<not> prefix u d \<and> \<not> prefix d u"
          using overlapFreeD1 [OF ad] by blast
        ultimately have "prefix a s" by (rule scan_prefix_from_input [rotated])
        with n show False by blast
      qed
      have nc: "\<not> prefix c (x # replaceAll_scan a b xs)"
      proof
        assume "prefix c (x # replaceAll_scan a b xs)"
        with l2 have "prefix c (replaceAll_scan a b s)" by simp
        moreover have "\<forall>u. suffix u c \<and> u \<noteq> [] \<longrightarrow> \<not> prefix u b \<and> \<not> prefix b u"
          using overlapFreeD1 [OF cb] by blast
        ultimately have "prefix c s" by (rule scan_prefix_from_input [rotated])
        with n show False by blast
      qed
      from na nc l1 l2 less.hyps [OF len] show ?thesis by simp
    qed
  qed
qed

lemma replaceAll_replaces:
  "p \<noteq> [] \<Longrightarrow> sublist p s \<Longrightarrow> sublist r (replaceAll p r s)"
  by (simp add: replaceAll_def scan_replaces)

lemma replaceAll_keeps_sublist:
  "overlapFree p t \<Longrightarrow> p \<noteq> [] \<Longrightarrow> t \<noteq> [] \<Longrightarrow> sublist t s \<Longrightarrow> sublist t (replaceAll p r s)"
  by (simp add: replaceAll_def scan_keeps_sublist)

lemma replaceAll_unchanged: "p \<noteq> [] \<Longrightarrow> \<not> sublist p s \<Longrightarrow> replaceAll p r s = s"
  by (simp add: replaceAll_def scan_unchanged)

text \<open>
  The tokens and the placeholders of the source do not overlap one another, and the
  placeholders are free of borders.
\<close>

lemma overlapFree_tokens:
  "overlapFree ''{{user}}'' ''{{char}}''"
  "overlapFree ''{{char}}'' ''{{user}}''"
  "overlapFree ''{{char}}'' userPlaceHolder"
  "overlapFree ''{{user}}'' userPlaceHolder"
  "overlapFree ''{{user}}'' charPlaceHolder"
  "overlapFree ''{{char}}'' charPlaceHolder"
  "overlapFree userPlaceHolder charPlaceHolder"
  "overlapFree userPlaceHolder ''{{user}}''"
  "overlapFree userPlaceHolder ''{{char}}''"
  "overlapFree charPlaceHolder ''{{user}}''"
  "overlapFree charPlaceHolder ''{{char}}''"
  by (simp_all add: overlapFree_def userPlaceHolder_def charPlaceHolder_def)

lemma borderFree_placeHolders: "borderFree userPlaceHolder" "borderFree charPlaceHolder"
  by (simp_all add: borderFree_def userPlaceHolder_def charPlaceHolder_def)

lemma placeHolders_nonempty: "userPlaceHolder \<noteq> []" "charPlaceHolder \<noteq> []"
  by (simp_all add: userPlaceHolder_def charPlaceHolder_def)

text \<open>Protecting turns each token into its placeholder; restoring turns it back.\<close>

lemma protect_user: "sublist ''{{user}}'' c \<Longrightarrow> sublist userPlaceHolder (protect c)"
  unfolding protect_def
  by (intro replaceAll_keeps_sublist replaceAll_replaces overlapFree_tokens placeHolders_nonempty) simp_all

lemma protect_char: "sublist ''{{char}}'' c \<Longrightarrow> sublist charPlaceHolder (protect c)"
  unfolding protect_def
  by (intro replaceAll_keeps_sublist replaceAll_replaces overlapFree_tokens placeHolders_nonempty) simp_all

lemma restore_user: "sublist userPlaceHolder c \<Longrightarrow> sublist ''{{user}}'' (restore c)"
  unfolding restore_def
  by (intro replaceAll_keeps_sublist replaceAll_replaces overlapFree_tokens placeHolders_nonempty) simp_all

lemma restore_char: "sublist charPlaceHolder c \<Longrightarrow> sublist ''{{char}}'' (restore c)"
  unfolding restore_def
  by (intro replaceAll_keeps_sublist replaceAll_replaces overlapFree_tokens placeHolders_nonempty) simp_all

text \<open>
  The substitution that replaces every token keeps the placeholders, whatever the two names
  are, and leaves a text without tokens as it is.
\<close>

lemma substituteParams_stub_preserves:
  "preservesPlaceHolders (substituteParams_stub userName charName)"
  unfolding preservesPlaceHolders_def substituteParams_stub_def
  by (intro allI conjI impI replaceAll_keeps_sublist overlapFree_tokens placeHolders_nonempty) simp_all

lemma substituteParams_stub_expandsOnlyTokens:
  "expandsOnlyTokens (substituteParams_stub userName charName)"
  by (simp add: expandsOnlyTokens_def substituteParams_stub_def replaceAll_unchanged)

text \<open>A protected text holds no token: the substitution of the host finds nothing in it.\<close>

lemma protect_no_tokens:
  "\<not> sublist ''{{user}}'' (protect c)" "\<not> sublist ''{{char}}'' (protect c)"
proof -
  let ?y = "replaceAll_scan ''{{user}}'' userPlaceHolder c"
  have p: "protect c = replaceAll_scan ''{{char}}'' charPlaceHolder ?y"
    by (simp add: protect_def replaceAll_def)
  have "\<not> sublist ''{{user}}'' ?y"
    by (rule scan_removes_pattern) (simp_all add: overlapFree_tokens)
  moreover have "sublist ''{{user}}'' (protect c) \<Longrightarrow> sublist ''{{user}}'' ?y"
    unfolding p by (rule scan_no_new_sublist [OF overlapFree_tokens(5)]) simp_all
  ultimately show "\<not> sublist ''{{user}}'' (protect c)" by blast
  show "\<not> sublist ''{{char}}'' (protect c)"
    unfolding p by (rule scan_removes_pattern) (simp_all add: overlapFree_tokens)
qed

text \<open>
  Restoring after protecting is restoring alone: the round trip changes nothing but the
  placeholders that the text held already. A text without placeholders comes back as it is.
\<close>

lemma restore_protect: "restore (protect c) = restore c"
proof -
  let ?PU = "replaceAll_scan ''{{user}}'' userPlaceHolder"
  let ?PC = "replaceAll_scan ''{{char}}'' charPlaceHolder"
  let ?RU = "replaceAll_scan userPlaceHolder ''{{user}}''"
  let ?RC = "replaceAll_scan charPlaceHolder ''{{char}}''"
  have "restore (protect c) = ?RC (?RU (?PC (?PU c)))"
    by (simp add: restore_def protect_def replaceAll_def placeHolders_nonempty)
  also have "?RU (?PC (?PU c)) = ?PC (?RU (?PU c))"
    by (rule scan_commute) (simp_all add: overlapFree_tokens placeHolders_nonempty)
  also have "?RU (?PU c) = ?RU c"
    by (rule scan_back) (simp_all add: overlapFree_tokens borderFree_placeHolders placeHolders_nonempty)
  also have "?RC (?PC (?RU c)) = ?RC (?RU c)"
    by (rule scan_back) (simp_all add: overlapFree_tokens borderFree_placeHolders placeHolders_nonempty)
  also have "\<dots> = restore c"
    by (simp add: restore_def replaceAll_def placeHolders_nonempty)
  finally show ?thesis .
qed

lemma restore_unchanged:
  "\<not> sublist userPlaceHolder c \<Longrightarrow> \<not> sublist charPlaceHolder c \<Longrightarrow> restore c = c"
  by (simp add: restore_def replaceAll_unchanged placeHolders_nonempty)

lemma restore_keeps_tokens:
  "sublist ''{{user}}'' c \<Longrightarrow> sublist ''{{user}}'' (restore c)"
  "sublist ''{{char}}'' c \<Longrightarrow> sublist ''{{char}}'' (restore c)"
  unfolding restore_def
  by (intro replaceAll_keeps_sublist overlapFree_tokens placeHolders_nonempty; simp)+

text \<open>
  A host that does more than expand the two tokens, but lets the placeholders through, still
  cannot take a token of the rendered text away.
\<close>

lemma tokens_survive_placeholder_preserving_host:
  assumes "preservesPlaceHolders subst"
  shows "sublist ''{{user}}'' c \<Longrightarrow> sublist ''{{user}}'' (restore (subst (protect c)))"
    and "sublist ''{{char}}'' c \<Longrightarrow> sublist ''{{char}}'' (restore (subst (protect c)))"
proof -
  from assms have u: "sublist userPlaceHolder s \<Longrightarrow> sublist userPlaceHolder (subst s)"
    and c: "sublist charPlaceHolder s \<Longrightarrow> sublist charPlaceHolder (subst s)" for s
    unfolding preservesPlaceHolders_def by blast+
  show "sublist ''{{user}}'' c \<Longrightarrow> sublist ''{{user}}'' (restore (subst (protect c)))"
    by (rule restore_user, rule u, rule protect_user)
  show "sublist ''{{char}}'' c \<Longrightarrow> sublist ''{{char}}'' (restore (subst (protect c)))"
    by (rule restore_char, rule c, rule protect_char)
qed

subsection \<open>The loop\<close>

lemma forLoop_append:
  "forLoop h chat prompts td (xs @ ys) st =
     (case forLoop h chat prompts td xs st of
        (tr, Inl e) \<Rightarrow> (tr, Inl e)
      | (tr, Inr messages) \<Rightarrow> forLoop h chat prompts td ys (tr, messages))"
  by (induction xs arbitrary: st) (auto split: prod.splits sum.splits)

lemma loopBody_chatHistory:
  "promptName mc = ''chatHistory'' \<Longrightarrow>
   loopBody h chat prompts td mc (tr, messages) = (tr, Inr (messages @ chatHistory chat))"
  by (simp add: loopBody_def)

lemma loopBody_undefined:
  "promptName mc \<noteq> ''chatHistory'' \<Longrightarrow> getProperty prompts (promptName mc) = Undefined \<Longrightarrow>
   loopBody h chat prompts td mc (tr, messages) = (tr, Inr messages)"
  by (simp add: loopBody_def)

lemma loopBody_inherited:
  "promptName mc \<noteq> ''chatHistory'' \<Longrightarrow> getProperty prompts (promptName mc) = Inherited \<Longrightarrow>
   loopBody h chat prompts td mc (tr, messages) = (tr @ [Compile None], Inl compileInputError)"
  by (simp add: loopBody_def compileTemplate_def)

lemma loopBody_own:
  assumes "promptName mc \<noteq> ''chatHistory''"
    and "prompts (promptName mc) = Some p"
    and "Handlebars_compile h (prompt_content p) td = Inr rendered"
  shows "loopBody h chat prompts td mc (tr, messages)
         = (tr @ [Compile (Some (prompt_content p)), SubstituteParams (protect rendered)],
            Inr (if restore (substituteParams h (protect rendered)) = [] then messages
                 else messages @ [\<lparr> role = context_role mc,
                                     content = restore (substituteParams h (protect rendered)) \<rparr>]))"
  using assms by (simp add: loopBody_def getProperty_def compileTemplate_def Let_def)

text \<open>
  C1. The host substitutes \<open>{{user}}\<close> and \<open>{{char}}\<close> only, be it every occurrence of
  them. Then, for a template entry, the substitution receives a text without tokens, and the
  content of the message is the rendered text with nothing changed but the placeholders it
  held already: a rendered text without placeholders is the content of the message, every
  \<open>{{user}}\<close> and \<open>{{char}}\<close> where it was. In any case a token of the rendered text is a
  token of the content.
\<close>

theorem placeholder_protection_round_trip:
  assumes "expandsOnlyTokens (substituteParams h)"
    and "promptName mc \<noteq> ''chatHistory''"
    and "prompts (promptName mc) = Some p"
    and "Handlebars_compile h (prompt_content p) td = Inr rendered"
  shows "loopBody h chat prompts td mc (tr, messages)
           = (tr @ [Compile (Some (prompt_content p)), SubstituteParams (protect rendered)],
              Inr (if restore rendered = [] then messages
                   else messages @ [\<lparr> role = context_role mc, content = restore rendered \<rparr>]))
       \<and> (\<not> sublist userPlaceHolder rendered \<and> \<not> sublist charPlaceHolder rendered
            \<longrightarrow> restore rendered = rendered)
       \<and> (sublist ''{{user}}'' rendered \<longrightarrow> sublist ''{{user}}'' (restore rendered))
       \<and> (sublist ''{{char}}'' rendered \<longrightarrow> sublist ''{{char}}'' (restore rendered))"
proof -
  from assms(1) have "substituteParams h (protect rendered) = protect rendered"
    unfolding expandsOnlyTokens_def using protect_no_tokens by blast
  then have "restore (substituteParams h (protect rendered)) = restore rendered"
    by (simp add: restore_protect)
  moreover from assms(2-4) have
    "loopBody h chat prompts td mc (tr, messages)
       = (tr @ [Compile (Some (prompt_content p)), SubstituteParams (protect rendered)],
          Inr (if restore (substituteParams h (protect rendered)) = [] then messages
               else messages @ [\<lparr> role = context_role mc,
                                   content = restore (substituteParams h (protect rendered)) \<rparr>]))"
    by (rule loopBody_own)
  ultimately have
    "loopBody h chat prompts td mc (tr, messages)
       = (tr @ [Compile (Some (prompt_content p)), SubstituteParams (protect rendered)],
          Inr (if restore rendered = [] then messages
               else messages @ [\<lparr> role = context_role mc, content = restore rendered \<rparr>]))"
    by simp
  then show ?thesis
    using restore_unchanged restore_keeps_tokens by blast
qed

theorem placeholder_protection_round_trip_witness:
  "loopBody exampleHost [] (promptSettings exampleParams)
     (templateData exampleHost exampleParams ''A hero'')
     \<lparr> promptName = ''task'', context_role = system \<rparr> ([], [])
   = ([Compile (Some ''Write {{targetField}} for {{char}}, as {{user}} asks.''),
       SubstituteParams (protect ''Write description for {{char}}, as {{user}} asks.'')],
      Inr [\<lparr> role = system, content = ''Write description for {{char}}, as {{user}} asks.'' \<rparr>])"
proof -
  let ?p = "\<lparr> prompt_content = ''Write {{targetField}} for {{char}}, as {{user}} asks.'' \<rparr>"
  let ?mc = "\<lparr> promptName = ''task'', context_role = system \<rparr>"
  let ?r = "''Write description for {{char}}, as {{user}} asks.''"
  have h1: "expandsOnlyTokens (substituteParams exampleHost)"
    by (simp add: exampleHost_def substituteParams_stub_expandsOnlyTokens)
  have h2: "promptName ?mc \<noteq> ''chatHistory''"
    by simp
  have h3: "promptSettings exampleParams (promptName ?mc) = Some ?p"
    by (simp add: exampleParams_def)
  have h4: "Handlebars_compile exampleHost (prompt_content ?p)
             (templateData exampleHost exampleParams ''A hero'') = Inr ?r"
    by (simp add: exampleHost_def compile_stub_def templateData_def exampleParams_def replaceAll_def)
  have n: "\<not> sublist userPlaceHolder ?r \<and> \<not> sublist charPlaceHolder ?r"
    by (simp add: userPlaceHolder_def charPlaceHolder_def sublist_Cons_right)
  from placeholder_protection_round_trip
         [where h = exampleHost and mc = ?mc and prompts = "promptSettings exampleParams"
            and p = ?p and td = "templateData exampleHost exampleParams ''A hero''"
            and rendered = ?r and chat = "[]" and tr = "[]" and messages = "[]", OF h1 h2 h3 h4] n
  show ?thesis by simp
qed

text \<open>
  An entry whose name is neither \<open>chatHistory\<close>, nor a key of the prompt settings, nor the
  name of a member of \<open>Object.prototype\<close> leaves the trace and the messages as they are and
  raises nothing; the loop over a list that holds the entry gives what it gives over the list
  without it.
\<close>

lemma undefined_template_is_skipped:
  assumes "promptName mc \<noteq> ''chatHistory''"
    and "prompts (promptName mc) = None"
    and "promptName mc \<notin> set objectPrototypeMembers"
  shows "loopBody h chat prompts td mc (tr, messages) = (tr, Inr messages)
       \<and> forLoop h chat prompts td (before @ mc # after) st
           = forLoop h chat prompts td (before @ after) st"
proof -
  from assms(2,3) have u: "getProperty prompts (promptName mc) = Undefined"
    by (simp add: getProperty_def)
  have step: "forLoop h chat prompts td (mc # after) st' = forLoop h chat prompts td after st'" for st'
    using assms(1) u by (cases st') (simp add: loopBody_undefined)
  have "forLoop h chat prompts td (before @ mc # after) st
          = forLoop h chat prompts td (before @ after) st"
    by (simp add: forLoop_append step del: forLoop.simps split: prod.splits sum.splits)
  with assms(1) u show ?thesis
    by (simp add: loopBody_undefined del: forLoop.simps)
qed

lemma inherited_template_name_fails:
  assumes "promptName mc \<noteq> ''chatHistory''"
    and "prompts (promptName mc) = None"
    and "promptName mc \<in> set objectPrototypeMembers"
  shows "forLoop h chat prompts td (mc # after) (tr, messages)
         = (tr @ [Compile None], Inl compileInputError)"
  using assms by (simp add: loopBody_inherited getProperty_def)

text \<open>
  C10. A \<open>chatHistory\<close> entry, wherever it stands in the list and however often it
  occurs, appends the role and the content of every message of the base builder, in order: the
  trace stays as it is (no template is compiled, the substitution of the host is not called),
  a message with empty content is appended like any other, and the role of the entry plays no
  part.
\<close>

theorem chat_history_is_spliced_untouched:
  assumes "promptName mc = ''chatHistory''"
  shows "loopBody h chat prompts td mc (tr, messages) = (tr, Inr (messages @ chatHistory chat))
       \<and> map role (chatHistory chat) = map role chat
       \<and> map content (chatHistory chat) = map content chat
       \<and> forLoop h chat prompts td (before @ mc # after) st
           = (case forLoop h chat prompts td before st of
                (tr', Inl e) \<Rightarrow> (tr', Inl e)
              | (tr', Inr ms) \<Rightarrow> forLoop h chat prompts td after (tr', ms @ chatHistory chat))"
  using assms
  by (auto simp add: forLoop_append loopBody_chatHistory chatHistory_def
        split: prod.splits sum.splits)

theorem chat_history_is_spliced_untouched_witness:
  "forLoop exampleHost
     [\<lparr> role = system, content = ''Be brief.'' \<rparr>, \<lparr> role = assistant, content = [] \<rparr>]
     (promptSettings exampleParams) (templateData exampleHost exampleParams ''A hero'')
     [\<lparr> promptName = ''chatHistory'', context_role = user \<rparr>,
      \<lparr> promptName = ''chatHistory'', context_role = system \<rparr>] ([], [])
   = ([], Inr [\<lparr> role = system, content = ''Be brief.'' \<rparr>, \<lparr> role = assistant, content = [] \<rparr>,
               \<lparr> role = system, content = ''Be brief.'' \<rparr>, \<lparr> role = assistant, content = [] \<rparr>])"
proof -
  let ?chat = "[\<lparr> role = system, content = ''Be brief.'' \<rparr>, \<lparr> role = assistant, content = [] \<rparr>]"
  let ?a = "\<lparr> promptName = ''chatHistory'', context_role = user \<rparr>"
  let ?b = "\<lparr> promptName = ''chatHistory'', context_role = system \<rparr>"
  have ha: "promptName ?a = ''chatHistory''" and hb: "promptName ?b = ''chatHistory''"
    by simp_all
  note first = chat_history_is_spliced_untouched
         [where mc = ?a and h = exampleHost and chat = ?chat
            and prompts = "promptSettings exampleParams"
            and td = "templateData exampleHost exampleParams ''A hero''"
            and before = "[]" and after = "[?b]" and st = "([], [])", OF ha]
  note second = chat_history_is_spliced_untouched
         [where mc = ?b and h = exampleHost and chat = ?chat
            and prompts = "promptSettings exampleParams"
            and td = "templateData exampleHost exampleParams ''A hero''"
            and before = "[]" and after = "[]" and st = "([], chatHistory ?chat)", OF hb]
  from first second show ?thesis
    by (simp add: chatHistory_def)
qed

text \<open>
  What the loop gives, entry by entry: the messages are the ones at the start followed by one
  part for each entry, in order, and each part is what its entry contributes.
\<close>

lemma loopBody_part:
  assumes "loopBody h chat prompts td mc (tr, ms) = (tr', Inr ms')"
  shows "\<exists>part. ms' = ms @ part \<and> entryContribution h chat prompts td mc part"
  using assms
  by (auto simp: loopBody_def entryContribution_def getProperty_def compileTemplate_def
        compileInputError_def Let_def
        split: if_splits option.splits sum.splits property.splits)

lemma forLoop_parts:
  assumes "forLoop h chat prompts td mcs (tr, ms) = (tr', Inr ms')"
  shows "\<exists>parts. ms' = ms @ concat parts
          \<and> list_all2 (entryContribution h chat prompts td) mcs parts"
  using assms
proof (induction mcs arbitrary: tr ms)
  case Nil
  then show ?case by simp
next
  case (Cons mc mcs)
  from Cons.prems obtain tr1 ms1 where
    b: "loopBody h chat prompts td mc (tr, ms) = (tr1, Inr ms1)"
    and r: "forLoop h chat prompts td mcs (tr1, ms1) = (tr', Inr ms')"
    by (auto split: prod.splits sum.splits)
  from loopBody_part [OF b] obtain part where
    p: "ms1 = ms @ part" "entryContribution h chat prompts td mc part"
    by blast
  from Cons.IH [OF r] obtain parts where
    ps: "ms' = ms1 @ concat parts" "list_all2 (entryContribution h chat prompts td) mcs parts"
    by blast
  from p ps have "ms' = ms @ concat (part # parts)" by simp
  moreover from p(2) ps(2) have
    "list_all2 (entryContribution h chat prompts td) (mc # mcs) (part # parts)"
    by simp
  ultimately show ?case by blast
qed

lemma entryContribution_template:
  assumes "promptName mc \<noteq> ''chatHistory''"
    and "entryContribution h chat prompts td mc part"
  shows "length part \<le> 1 \<and> list_all (\<lambda>m. role m = context_role mc \<and> content m \<noteq> []) part"
  using assms
  by (auto simp: entryContribution_def split: option.splits sum.splits if_splits)

subsection \<open>The whole call\<close>

lemma assembleMessages_valid:
  assumes "resolveProfile h (profileId ps) = Inr p"
    and "resolveSelectedApi h p = Inr a"
    and "buildPrompt h a (buildPromptOptions ps) = Inr chat"
  shows "assembleMessages h ps
         = forLoop h chat (promptSettings ps)
             (templateData h ps (substituteParams h (trim (userPrompt ps))))
             (mainContextList ps)
             ([SubstituteParams (trim (userPrompt ps)), BuildPrompt a], [])"
  using assms by (simp add: assembleMessages_def)

lemma assembleMessages_Inr:
  assumes "assembleMessages h ps = (tr, Inr messages)"
  shows "\<exists>p a chat. resolveProfile h (profileId ps) = Inr p
           \<and> resolveSelectedApi h p = Inr a
           \<and> buildPrompt h a (buildPromptOptions ps) = Inr chat
           \<and> forLoop h chat (promptSettings ps)
                (templateData h ps (substituteParams h (trim (userPrompt ps))))
                (mainContextList ps)
                ([SubstituteParams (trim (userPrompt ps)), BuildPrompt a], [])
              = (tr, Inr messages)"
  using assms by (auto simp: assembleMessages_def Let_def split: sum.splits)

lemma run_sends_assembled:
  assumes "assembleMessages h ps = (tr, Inr messages)"
  shows "fst (runCharacterFieldGeneration h ps)
         = tr @ [SendRequest (profileId ps) messages (maxResponseToken ps)]"
  using assms by (simp add: runCharacterFieldGeneration_def Let_def split: sum.splits)

lemma run_fails_as_assembly:
  assumes "assembleMessages h ps = (tr, Inl e)"
  shows "runCharacterFieldGeneration h ps = (tr, Inl e)"
  using assms by (simp add: runCharacterFieldGeneration_def)

lemma chatHistory_plain: "chatHistory (chat :: message list) = chat"
  by (induction chat) (simp_all add: chatHistory_def)

lemma chatHistory_nth:
  "i < length chat \<Longrightarrow>
   role (chatHistory chat ! i) = role (chat ! i) \<and> content (chatHistory chat ! i) = content (chat ! i)"
  by (simp add: chatHistory_def)

lemma example_assembly:
  "resolveProfile exampleHost ''p1'' = Inr \<lparr> profile_id = ''p1'', profile_name = ''Main'', api = Some ''openai'' \<rparr>"
  "resolveSelectedApi exampleHost \<lparr> profile_id = ''p1'', profile_name = ''Main'', api = Some ''openai'' \<rparr> = Inr ''openai''"
  "buildPrompt exampleHost ''openai'' () = Inr [\<lparr> role = system, content = ''Be brief.'' \<rparr>, \<lparr> role = assistant, content = [] \<rparr>]"
  by (simp_all add: resolveProfile_def findProfile_def resolveSelectedApi_def selectedApi_def
        getProperty_def exampleHost_def)

text \<open>
  C2. When the profile resolves, its backend is determined, the base builder returns, and
  the main context list is a single \<open>chatHistory\<close> entry, the assembled list has the length
  of the output of the base builder and at every position its role and its content; this list
  is what goes to the request service.
\<close>

theorem chat_history_only_gives_base_messages:
  assumes "resolveProfile h (profileId ps) = Inr p"
    and "resolveSelectedApi h p = Inr a"
    and "buildPrompt h a (buildPromptOptions ps) = Inr chat"
    and "mainContextList ps = [mc]"
    and "promptName mc = ''chatHistory''"
  shows "\<exists>messages.
           assembleMessages h ps
             = ([SubstituteParams (trim (userPrompt ps)), BuildPrompt a], Inr messages)
         \<and> fst (runCharacterFieldGeneration h ps)
             = [SubstituteParams (trim (userPrompt ps)), BuildPrompt a,
                SendRequest (profileId ps) messages (maxResponseToken ps)]
         \<and> length messages = length chat
         \<and> (\<forall>i < length chat. role (messages ! i) = role (chat ! i)
                               \<and> content (messages ! i) = content (chat ! i))"
proof -
  have a: "assembleMessages h ps
           = ([SubstituteParams (trim (userPrompt ps)), BuildPrompt a], Inr (chatHistory chat))"
    using assms by (simp add: assembleMessages_valid loopBody_chatHistory)
  from run_sends_assembled [OF a] have
    "fst (runCharacterFieldGeneration h ps)
       = [SubstituteParams (trim (userPrompt ps)), BuildPrompt a,
          SendRequest (profileId ps) (chatHistory chat) (maxResponseToken ps)]"
    by simp
  moreover have "length (chatHistory chat) = length chat"
    by (simp add: chatHistory_def)
  ultimately show ?thesis
    using a chatHistory_nth by blast
qed

theorem chat_history_only_gives_base_messages_witness:
  "\<exists>messages.
     fst (runCharacterFieldGeneration exampleHost exampleParams)
       = [SubstituteParams ''A hero'', BuildPrompt ''openai'', SendRequest ''p1'' messages 256]
   \<and> length messages = 2
   \<and> role (messages ! 0) = system \<and> content (messages ! 0) = ''Be brief.''
   \<and> role (messages ! 1) = assistant \<and> content (messages ! 1) = []"
proof -
  let ?chat = "[\<lparr> role = system, content = ''Be brief.'' \<rparr>, \<lparr> role = assistant, content = [] \<rparr>]"
  let ?mc = "\<lparr> promptName = ''chatHistory'', context_role = user \<rparr>"
  have h1: "resolveProfile exampleHost (profileId exampleParams)
            = Inr \<lparr> profile_id = ''p1'', profile_name = ''Main'', api = Some ''openai'' \<rparr>"
    by (simp add: example_assembly exampleParams_def)
  have h3: "buildPrompt exampleHost ''openai'' (buildPromptOptions exampleParams) = Inr ?chat"
    by (simp add: example_assembly)
  have h4: "mainContextList exampleParams = [?mc]"
    by (simp add: exampleParams_def)
  have h5: "promptName ?mc = ''chatHistory''"
    by simp
  have e: "trim (userPrompt exampleParams) = ''A hero''" "profileId exampleParams = ''p1''"
    "maxResponseToken exampleParams = 256"
    by (simp_all add: exampleParams_def trim_def isWhiteSpace_def)
  from chat_history_only_gives_base_messages [OF h1 example_assembly(2) h3 h4 h5]
  obtain messages where
    m: "fst (runCharacterFieldGeneration exampleHost exampleParams)
        = [SubstituteParams (trim (userPrompt exampleParams)), BuildPrompt ''openai'',
           SendRequest (profileId exampleParams) messages (maxResponseToken exampleParams)]"
       "length messages = length ?chat"
       "\<forall>i < length ?chat. role (messages ! i) = role (?chat ! i)
                           \<and> content (messages ! i) = content (?chat ! i)"
    by blast
  from m(3) have "role (messages ! 0) = system \<and> content (messages ! 0) = ''Be brief.''"
    and "role (messages ! 1) = assistant \<and> content (messages ! 1) = []"
    by simp_all
  with m(1,2) e show ?thesis
    by auto
qed

text \<open>
  C8. The list that is assembled and sent is one part for each entry of the main context
  list, in order. The part of an entry with a prompt is fixed by the text its template renders
  to: when that text, protected, substituted and restored, is empty, the part is empty and no
  message stands for the entry; otherwise the part is the one message with that text. So the
  part of every entry other than \<open>chatHistory\<close> is at most one message, and the content of
  that message is not empty.
\<close>

theorem template_messages_have_content:
  assumes "assembleMessages h ps = (tr, Inr messages)"
  shows "\<exists>p a chat parts.
           resolveProfile h (profileId ps) = Inr p
         \<and> resolveSelectedApi h p = Inr a
         \<and> buildPrompt h a (buildPromptOptions ps) = Inr chat
         \<and> messages = concat parts
         \<and> list_all2 (\<lambda>mc part.
               entryContribution h chat (promptSettings ps)
                 (templateData h ps (substituteParams h (trim (userPrompt ps)))) mc part
               \<and> (promptName mc \<noteq> ''chatHistory'' \<longrightarrow>
                    length part \<le> 1
                    \<and> list_all (\<lambda>m. role m = context_role mc \<and> content m \<noteq> []) part))
             (mainContextList ps) parts
         \<and> fst (runCharacterFieldGeneration h ps)
             = tr @ [SendRequest (profileId ps) messages (maxResponseToken ps)]"
proof -
  let ?td = "templateData h ps (substituteParams h (trim (userPrompt ps)))"
  from assembleMessages_Inr [OF assms] obtain p a chat where
    v: "resolveProfile h (profileId ps) = Inr p" "resolveSelectedApi h p = Inr a"
       "buildPrompt h a (buildPromptOptions ps) = Inr chat"
    and l: "forLoop h chat (promptSettings ps) ?td (mainContextList ps)
              ([SubstituteParams (trim (userPrompt ps)), BuildPrompt a], [])
            = (tr, Inr messages)"
    by blast
  from forLoop_parts [OF l] obtain parts where
    m: "messages = concat parts"
    and c: "list_all2 (entryContribution h chat (promptSettings ps) ?td) (mainContextList ps) parts"
    by auto
  from c have
    "list_all2 (\<lambda>mc part.
               entryContribution h chat (promptSettings ps) ?td mc part
               \<and> (promptName mc \<noteq> ''chatHistory'' \<longrightarrow>
                    length part \<le> 1
                    \<and> list_all (\<lambda>m. role m = context_role mc \<and> content m \<noteq> []) part))
             (mainContextList ps) parts"
    by (rule list_all2_mono) (use entryContribution_template in blast)
  with v m run_sends_assembled [OF assms] show ?thesis by blast
qed

theorem template_messages_have_content_witness:
  "\<exists>p a chat parts.
     resolveProfile exampleHost ''p1'' = Inr p
   \<and> resolveSelectedApi exampleHost p = Inr a
   \<and> buildPrompt exampleHost a () = Inr chat
   \<and> [\<lparr> role = system, content = ''Write description for {{char}}, as {{user}} asks.'' \<rparr>,
      \<lparr> role = system, content = ''Be brief.'' \<rparr>, \<lparr> role = assistant, content = [] \<rparr>] = concat parts
   \<and> list_all2 (\<lambda>mc part.
         entryContribution exampleHost chat (promptSettings exampleParams)
           (templateData exampleHost exampleParams ''A hero'') mc part
         \<and> (promptName mc \<noteq> ''chatHistory'' \<longrightarrow>
              length part \<le> 1
              \<and> list_all (\<lambda>m. role m = context_role mc \<and> content m \<noteq> []) part))
       [\<lparr> promptName = ''task'', context_role = system \<rparr>,
        \<lparr> promptName = ''blank'', context_role = user \<rparr>,
        \<lparr> promptName = ''chatHistory'', context_role = user \<rparr>] parts"
proof -
  let ?ps = "exampleParams \<lparr> mainContextList :=
               [\<lparr> promptName = ''task'', context_role = system \<rparr>,
                \<lparr> promptName = ''blank'', context_role = user \<rparr>,
                \<lparr> promptName = ''chatHistory'', context_role = user \<rparr>] \<rparr>"
  let ?tr = "[SubstituteParams ''A hero'', BuildPrompt ''openai'',
              Compile (Some ''Write {{targetField}} for {{char}}, as {{user}} asks.''),
              SubstituteParams ''Write description for [[[crec_veryUniqueCharPlaceHolder]]], as [[[crec_veryUniqueUserPlaceHolder]]] asks.'',
              Compile (Some []), SubstituteParams []]"
  let ?ms = "[\<lparr> role = system, content = ''Write description for {{char}}, as {{user}} asks.'' \<rparr>,
              \<lparr> role = system, content = ''Be brief.'' \<rparr>, \<lparr> role = assistant, content = [] \<rparr>]"
  have e: "profileId ?ps = ''p1''" "buildPromptOptions ?ps = ()"
    "promptSettings ?ps = promptSettings exampleParams"
    "mainContextList ?ps = [\<lparr> promptName = ''task'', context_role = system \<rparr>,
        \<lparr> promptName = ''blank'', context_role = user \<rparr>,
        \<lparr> promptName = ''chatHistory'', context_role = user \<rparr>]"
    "trim (userPrompt ?ps) = ''A hero''"
    by (simp_all add: exampleParams_def trim_def isWhiteSpace_def)
  have s: "substituteParams exampleHost ''A hero'' = ''A hero''"
    by (simp add: exampleHost_def substituteParams_stub_def replaceAll_def)
  have t: "templateData exampleHost ?ps ''A hero'' = templateData exampleHost exampleParams ''A hero''"
    by (simp add: templateData_def)
  have "assembleMessages exampleHost ?ps = (?tr, Inr ?ms)"
    by (simp add: assembleMessages_def example_assembly exampleParams_def trim_def isWhiteSpace_def
          loopBody_def getProperty_def compileTemplate_def
          chatHistory_def exampleHost_def compile_stub_def templateData_def
          protect_def restore_def substituteParams_stub_def replaceAll_def
          userPlaceHolder_def charPlaceHolder_def
          resolveProfile_def findProfile_def resolveSelectedApi_def selectedApi_def)
  from template_messages_have_content [OF this] show ?thesis
    unfolding e s t by blast
qed

text \<open>
  C7. The name \<open>toString\<close> is no key of the prompt settings of the example and it is not
  \<open>chatHistory\<close>, yet the entry is not skipped: line 172 finds the member inherited from
  \<open>Object.prototype\<close>, the guard of line 173 lets it through, its \<open>content\<close> is
  \<open>undefined\<close> and \<open>Handlebars.compile\<close> throws. The call ends with that error; the
  \<open>chatHistory\<close> entry after it contributes nothing and nothing is sent.
\<close>

theorem inherited_template_name_raises:
  "promptSettings exampleParams ''toString'' = None
 \<and> runCharacterFieldGeneration exampleHost
      (exampleParams \<lparr> mainContextList :=
         [\<lparr> promptName = ''toString'', context_role = system \<rparr>,
          \<lparr> promptName = ''chatHistory'', context_role = user \<rparr>] \<rparr>)
     = ([SubstituteParams ''A hero'', BuildPrompt ''openai'', Compile None],
        Inl (Error ''You must pass a string or Handlebars AST to Handlebars.compile. You passed undefined''))"
  by (simp add: runCharacterFieldGeneration_def assembleMessages_def example_assembly
        exampleParams_def trim_def isWhiteSpace_def loopBody_def getProperty_def
        objectPrototypeMembers_def compileTemplate_def compileInputError_def)

subsection \<open>Profile and backend\<close>

lemma findProfile_None_iff:
  "findProfile h pid = None \<longleftrightarrow>
     (\<forall>cm ps. connectionManager h = Some cm \<and> profiles cm = Some ps
        \<longrightarrow> pid \<notin> profile_id ` set ps)"
  by (auto simp: findProfile_def find_None_iff split: option.splits)

text \<open>
  C3. With an empty \<open>profileId\<close> the call fails with the error of line 84 (the
  \<open>ConfigurationError("no profile selected")\<close> of the specification); with a
  \<open>profileId\<close> that is not empty and that no profile of the registry has, it fails with the
  error of line 88 (\<open>NotFoundError("profile missing")\<close>). In both cases the trace is empty:
  no service of the host has been called, neither the base builder, the template engine nor the
  request service, and no message list exists.
\<close>

theorem missing_profile_fails_before_anything:
  "(profileId ps = [] \<longrightarrow>
      assembleMessages h ps = ([], Inl (Error ''No connection profile selected.''))
    \<and> runCharacterFieldGeneration h ps = ([], Inl (Error ''No connection profile selected.'')))
 \<and> (profileId ps \<noteq> [] \<and> findProfile h (profileId ps) = None \<longrightarrow>
      assembleMessages h ps
        = ([], Inl (Error (''Connection profile with ID '' @ [CHR 0x22] @ profileId ps @ [CHR 0x22] @ '' not found.'')))
    \<and> runCharacterFieldGeneration h ps
        = ([], Inl (Error (''Connection profile with ID '' @ [CHR 0x22] @ profileId ps @ [CHR 0x22] @ '' not found.''))))"
  by (simp add: runCharacterFieldGeneration_def assembleMessages_def resolveProfile_def)

theorem missing_profile_fails_before_anything_witness:
  "runCharacterFieldGeneration exampleHost (exampleParams \<lparr> profileId := [] \<rparr>)
     = ([], Inl (Error ''No connection profile selected.''))
 \<and> runCharacterFieldGeneration exampleHost (exampleParams \<lparr> profileId := ''p9'' \<rparr>)
     = ([], Inl (Error (''Connection profile with ID '' @ [CHR 0x22] @ ''p9'' @ [CHR 0x22] @ '' not found.'')))"
proof -
  have "findProfile exampleHost ''p9'' = None"
    by (simp add: findProfile_def exampleHost_def)
  with missing_profile_fails_before_anything [of "exampleParams \<lparr> profileId := [] \<rparr>" exampleHost]
    missing_profile_fails_before_anything [of "exampleParams \<lparr> profileId := ''p9'' \<rparr>" exampleHost]
  show ?thesis by simp
qed

text \<open>
  The backend of a resolved profile. When \<open>api\<close> is undefined or empty, or when its entry
  of \<open>CONNECT_API_MAP\<close> has no \<open>selected\<close>, the call fails with the error of line 95 after
  the one substitution of line 91 and before the base builder is called. When \<open>api\<close> is
  neither a key of \<open>CONNECT_API_MAP\<close> nor the name of an inherited member, line 93 reads
  \<open>selected\<close> from \<open>undefined\<close> and the call fails with that error of the runtime
  instead.
\<close>

lemma undetermined_api_fails:
  assumes "resolveProfile h (profileId ps) = Inr p"
    and "selectedApi h p = Inr sel"
    and "sel = None \<or> sel = Some []"
  shows "runCharacterFieldGeneration h ps
         = ([SubstituteParams (trim (userPrompt ps))],
            Inl (Error (''Could not determine API for profile '' @ [CHR 0x22] @ profile_name p @ [CHR 0x22] @ ''.'')))"
  using assms
  by (auto simp: runCharacterFieldGeneration_def assembleMessages_def resolveSelectedApi_def)

lemma selectedApi_undetermined_iff:
  "(\<exists>sel. selectedApi h p = Inr sel \<and> (sel = None \<or> sel = Some [])) \<longleftrightarrow>
     (api p = None \<or> api p = Some []
      \<or> (\<exists>a e. api p = Some a \<and> CONNECT_API_MAP h a = Some e
                \<and> (selected e = None \<or> selected e = Some []))
      \<or> (\<exists>a. api p = Some a \<and> CONNECT_API_MAP h a = None \<and> a \<in> set objectPrototypeMembers))"
  by (auto simp: selectedApi_def getProperty_def split: option.splits if_splits)

lemma unknown_api_key_fails:
  assumes "resolveProfile h (profileId ps) = Inr p"
    and "api p = Some a" and "a \<noteq> []" and "CONNECT_API_MAP h a = None"
    and "a \<notin> set objectPrototypeMembers"
  shows "runCharacterFieldGeneration h ps
         = ([SubstituteParams (trim (userPrompt ps))], Inl (TypeError ''selected''))"
  using assms
  by (simp add: runCharacterFieldGeneration_def assembleMessages_def resolveSelectedApi_def
        selectedApi_def getProperty_def)

text \<open>
  C4. The profile \<open>p2\<close> of the example host resolves, and its \<open>api\<close> is \<open>foo\<close>, which is
  no key of \<open>CONNECT_API_MAP\<close>: the profile maps to no known backend. The call fails before
  the base builder and the request service are called, but with the error of the runtime, not
  with the error of line 95.
\<close>

theorem unknown_api_key_gives_type_error:
  "findProfile exampleHost ''p2'' = Some \<lparr> profile_id = ''p2'', profile_name = ''Stale'', api = Some ''foo'' \<rparr>
 \<and> CONNECT_API_MAP exampleHost ''foo'' = None
 \<and> runCharacterFieldGeneration exampleHost (exampleParams \<lparr> profileId := ''p2'' \<rparr>)
     = ([SubstituteParams ''A hero''], Inl (TypeError ''selected''))
 \<and> runCharacterFieldGeneration exampleHost (exampleParams \<lparr> profileId := ''p2'' \<rparr>)
     \<noteq> ([SubstituteParams ''A hero''],
        Inl (Error (''Could not determine API for profile '' @ [CHR 0x22] @ ''Stale'' @ [CHR 0x22] @ ''.'')))"
  by (simp add: runCharacterFieldGeneration_def assembleMessages_def resolveProfile_def
        findProfile_def resolveSelectedApi_def selectedApi_def getProperty_def
        objectPrototypeMembers_def exampleHost_def exampleParams_def trim_def isWhiteSpace_def)


subsection \<open>The template context\<close>

lemma map_of_insertIndex:
  "k \<notin> fst ` set obj \<Longrightarrow> map_of (insertIndex k v obj) = (map_of obj)(k \<mapsto> v)"
proof (induction obj)
  case Nil
  then show ?case by simp
next
  case (Cons kv obj)
  then have "fst kv \<noteq> k" and "k \<notin> fst ` set obj" by auto
  with Cons.IH show ?case
    by (cases kv) (auto simp: fun_upd_twist)
qed

lemma map_of_defineOwn: "map_of (defineOwn obj k v) = (map_of obj)(k \<mapsto> v)"
proof -
  have "map_of (obj @ [(k, v)]) = (map_of obj)(k \<mapsto> v)" if "k \<notin> fst ` set obj"
  proof -
    from that have "map_of obj k = None" by (simp add: map_of_eq_None_iff)
    then show ?thesis
      by (auto simp: fun_eq_iff map_add_def split: option.splits)
  qed
  then show ?thesis
    by (simp add: defineOwn_def update_conv' map_of_insertIndex)
qed

lemma map_of_assign:
  "map_of (assign obj k v) = (if k = ''__proto__'' then map_of obj else (map_of obj)(k \<mapsto> v))"
  by (simp add: assign_def map_of_defineOwn)

lemma map_of_assign_fold:
  "map_of (foldl (\<lambda>obj (k, v). assign obj k (f v)) acc kvs) w
   = (if w = ''__proto__'' then map_of acc w
      else case map_of (rev kvs) w of Some v \<Rightarrow> Some (f v) | None \<Rightarrow> map_of acc w)"
proof (induction kvs arbitrary: acc)
  case Nil
  then show ?case by simp
next
  case (Cons kv kvs)
  obtain k v where kv: "kv = (k, v)" by (cases kv)
  show ?case
    by (simp add: kv Cons.IH map_of_assign map_add_def split: option.splits)
qed

lemma map_of_rev_distinct:
  "distinct (map fst kvs) \<Longrightarrow> map_of (rev kvs) = map_of kvs"
proof (induction kvs)
  case Nil
  then show ?case by simp
next
  case (Cons kv kvs)
  obtain k v where kv: "kv = (k, v)" by (cases kv)
  from Cons.prems kv have "map_of kvs k = None" by (simp add: map_of_eq_None_iff)
  moreover from Cons have "map_of (rev kvs) = map_of kvs" by simp
  ultimately show ?case
    by (auto simp: kv map_add_def fun_eq_iff split: option.splits)
qed

lemma map_of_filter_distinct:
  "distinct (map fst kvs) \<Longrightarrow>
   map_of (filter P kvs) w
   = (case map_of kvs w of Some v \<Rightarrow> if P (w, v) then Some v else None | None \<Rightarrow> None)"
proof (induction kvs)
  case Nil
  then show ?case by simp
next
  case (Cons kv kvs)
  obtain k v where kv: "kv = (k, v)" by (cases kv)
  from Cons.prems kv have k: "k \<notin> fst ` set kvs" by simp
  then have none: "map_of kvs k = None" by (simp add: map_of_eq_None_iff)
  from k have none': "map_of (filter P kvs) k = None" by (auto simp: map_of_eq_None_iff)
  from Cons.prems have "distinct (map fst kvs)" by simp
  with Cons.IH have ih: "map_of (filter P kvs) w
     = (case map_of kvs w of Some v \<Rightarrow> if P (w, v) then Some v else None | None \<Rightarrow> None)"
    by simp
  show ?case
    using none none' by (auto simp: kv ih split: option.splits)
qed

text \<open>
  The keys of \<open>lorebooks\<close>. The entries of \<open>entriesGroupByWorldName\<close> are those of an
  object, so no world name occurs twice. A world name other than \<open>__proto__\<close> is a key
  exactly when it is a key of the grouped entries, its list is not empty, it is among the
  selected world names and one of its entries is enabled; its value is then the enabled entries,
  in their order. The name \<open>__proto__\<close> is never a key.
\<close>

lemma map_of_lorebooksData:
  assumes "distinct (map fst grouped)"
  shows "map_of (lorebooksData grouped selectedWorlds) w
         = (if w = ''__proto__'' then None
            else case map_of grouped w of
              None \<Rightarrow> None
            | Some entries \<Rightarrow>
                if entries \<noteq> [] \<and> w \<in> set selectedWorlds \<and> (\<exists>entry \<in> set entries. \<not> disable entry)
                then Some (filter (\<lambda>entry. \<not> disable entry) entries)
                else None)"
proof -
  let ?Q = "\<lambda>(worldName, entries).
              entries \<noteq> [] \<and> worldName \<in> set selectedWorlds \<and> (\<exists>entry \<in> set entries. \<not> disable entry)"
  let ?kept = "filter ?Q grouped"
  have eq: "lorebooksData grouped selectedWorlds
            = foldl (\<lambda>obj (k, v). assign obj k (filter (\<lambda>entry. \<not> disable entry) v)) [] ?kept"
    by (simp add: lorebooksData_def list_ex_iff)
  from assms have d: "distinct (map fst ?kept)"
    by (rule distinct_map_filter)
  have "map_of (lorebooksData grouped selectedWorlds) w
        = (if w = ''__proto__'' then map_of [] w
           else case map_of (rev ?kept) w of
             Some v \<Rightarrow> Some (filter (\<lambda>entry. \<not> disable entry) v)
           | None \<Rightarrow> map_of [] w)"
    unfolding eq by (rule map_of_assign_fold)
  also have "map_of (rev ?kept) = map_of ?kept"
    using d by (rule map_of_rev_distinct)
  also have "map_of ?kept w
             = (case map_of grouped w of Some v \<Rightarrow> if ?Q (w, v) then Some v else None | None \<Rightarrow> None)"
    using assms by (rule map_of_filter_distinct)
  finally have "map_of (lorebooksData grouped selectedWorlds) w
        = (if w = ''__proto__'' then map_of [] w
           else case (case map_of grouped w of Some v \<Rightarrow> if ?Q (w, v) then Some v else None | None \<Rightarrow> None) of
             Some v \<Rightarrow> Some (filter (\<lambda>entry. \<not> disable entry) v)
           | None \<Rightarrow> map_of [] w)" .
  then show ?thesis
    by (cases "map_of grouped w") auto
qed

lemma lorebooks_of_other_worlds:
  assumes "distinct (map fst (entriesGroupByWorldName ps))"
    and "w \<noteq> ''__proto__''"
  shows "map_of (td_lorebooks (templateData h ps processedUserPrompt)) w
         = (case map_of (entriesGroupByWorldName ps) w of
              None \<Rightarrow> None
            | Some entries \<Rightarrow>
                if entries \<noteq> [] \<and> w \<in> set (selectedWorldNames (session ps))
                   \<and> (\<exists>entry \<in> set entries. \<not> disable entry)
                then Some (filter (\<lambda>entry. \<not> disable entry) entries)
                else None)"
  using assms by (simp add: templateData_def map_of_lorebooksData)

text \<open>
  C5. The grouped entries hold the world \<open>__proto__\<close> with one enabled entry, and the world
  is selected: by the claim it is a key of \<open>lorebooks\<close> with that entry. Line 136 assigns
  under the name \<open>__proto__\<close> to an object made by \<open>{}\<close>, which replaces the prototype
  of the object and creates no key: \<open>lorebooks\<close> has no key at all.
\<close>

theorem proto_world_is_no_key:
  "map_of [(''__proto__'', [\<lparr> uid = 5, entry_content = ''deep'', disable = False \<rparr>])] ''__proto__''
     = Some [\<lparr> uid = 5, entry_content = ''deep'', disable = False \<rparr>]
 \<and> td_lorebooks
      (templateData exampleHost
         (exampleParams
            \<lparr> session := exampleSession \<lparr> selectedWorldNames := [''__proto__''] \<rparr>,
              entriesGroupByWorldName :=
                [(''__proto__'', [\<lparr> uid = 5, entry_content = ''deep'', disable = False \<rparr>])] \<rparr>)
         ''A hero'')
     = []"
  by (simp add: templateData_def lorebooksData_def assign_def)

text \<open>
  C9. When the target field is a key of the draft fields and the prompt of that draft field
  is not nullish, \<open>fieldSpecificInstructions\<close> is that prompt, whatever the fixed fields hold
  under the same name. Otherwise it is the prompt of the fixed field of that name
  (\<open>undefined\<close> when there is none).
\<close>

theorem draft_prompt_takes_precedence:
  "(map_of (draftFields (session ps)) (targetField ps) = Some d \<and> prompt d = Some p \<longrightarrow>
      td_fieldSpecificInstructions (templateData h ps processedUserPrompt) = Some p)
 \<and> (map_of (draftFields (session ps)) (targetField ps) = None
      \<or> (\<exists>d'. map_of (draftFields (session ps)) (targetField ps) = Some d' \<and> prompt d' = None) \<longrightarrow>
      td_fieldSpecificInstructions (templateData h ps processedUserPrompt)
        = (case map_of (session_fields (session ps)) (targetField ps) of
             None \<Rightarrow> None
           | Some f \<Rightarrow> prompt f))"
  by (auto simp: templateData_def fieldSpecificInstructions_def split: option.splits)

theorem draft_prompt_takes_precedence_witness:
  "td_fieldSpecificInstructions (templateData exampleHost exampleParams ''A hero'')
     = Some ''Describe the voice.''
 \<and> td_fieldSpecificInstructions
      (templateData exampleHost
         (exampleParams \<lparr> session := exampleSession \<lparr> draftFields := [] \<rparr> \<rparr>) ''A hero'')
     = Some ''Describe the looks.''"
proof -
  let ?d = "\<lparr> prompt = Some ''Describe the voice.'', field_value = [], label = ''Voice'' \<rparr>"
  let ?ps = "exampleParams \<lparr> session := exampleSession \<lparr> draftFields := [] \<rparr> \<rparr>"
  have a: "map_of (draftFields (session exampleParams)) (targetField exampleParams) = Some ?d
           \<and> prompt ?d = Some ''Describe the voice.''"
    by (simp add: exampleParams_def exampleSession_def)
  have b: "map_of (draftFields (session ?ps)) (targetField ?ps) = None"
    by simp
  from draft_prompt_takes_precedence
         [of exampleParams ?d "''Describe the voice.''" exampleHost "''A hero''"] a
  have "td_fieldSpecificInstructions (templateData exampleHost exampleParams ''A hero'')
        = Some ''Describe the voice.''"
    by blast
  moreover
  from draft_prompt_takes_precedence [of ?ps _ _ exampleHost "''A hero''"] b
  have "td_fieldSpecificInstructions (templateData exampleHost ?ps ''A hero'')
        = (case map_of (session_fields (session ?ps)) (targetField ?ps) of
             None \<Rightarrow> None
           | Some f \<Rightarrow> prompt f)"
    by blast
  ultimately show ?thesis
    by (simp add: exampleParams_def exampleSession_def)
qed


lemma charactersData_fold:
  "foldl (\<lambda>acc charIndex.
            case parseInt charIndex of
              None \<Rightarrow> acc
            | Some n \<Rightarrow> if 0 \<le> n \<and> n < int (length allChars) then acc @ [allChars ! nat n]
                        else acc)
         acc charIndexes
   = acc @ concat (map (\<lambda>charIndex.
                          case parseInt charIndex of
                            None \<Rightarrow> []
                          | Some n \<Rightarrow> if 0 \<le> n \<and> n < int (length allChars) then [allChars ! nat n]
                                      else [])
                       charIndexes)"
  by (induction charIndexes arbitrary: acc) (auto split: option.splits)

lemma parseInt_examples:
  "parseInt ''0'' = Some 0" "parseInt ''1'' = Some 1" "parseInt ''2'' = Some 2"
  "parseInt ''x'' = None" "parseInt ''1abc'' = Some 1"
  by (simp_all add: parseInt_def isWhiteSpace_def isRadixDigit_def digitValue_def radixValue_def)

text \<open>
  On a run of decimal digits \<open>parseInt\<close> reads the whole run: an index written as a
  natural number in decimal is read as that number.
\<close>

lemma decimal_digit_is_plain:
  assumes "isRadixDigit 10 c"
  shows "\<not> isWhiteSpace c" "c \<noteq> CHR ''+''" "c \<noteq> CHR ''-''" "c \<noteq> CHR ''x''" "c \<noteq> CHR ''X''"
  using assms
  by (auto simp: isRadixDigit_def digitValue_def isWhiteSpace_def Let_def split: if_splits)

lemma parseInt_decimal_digits:
  assumes "ds \<noteq> []" and "list_all (isRadixDigit 10) ds"
  shows "parseInt ds = Some (radixValue 10 ds)"
proof -
  from assms obtain d ds' where ds: "ds = d # ds'" by (cases ds) auto
  with assms(2) have d: "isRadixDigit 10 d" and r: "list_all (isRadixDigit 10) ds'" by simp_all
  have w: "dropWhile isWhiteSpace ds = ds"
    using decimal_digit_is_plain(1) [OF d] by (simp add: ds)
  have nohex: "\<not> (2 \<le> length ds \<and> (take 2 ds = ''0x'' \<or> take 2 ds = ''0X''))"
  proof (cases ds')
    case Nil
    then show ?thesis by (simp add: ds)
  next
    case (Cons e es)
    with r have "isRadixDigit 10 e" by simp
    from decimal_digit_is_plain(4,5) [OF this] show ?thesis by (simp add: ds Cons)
  qed
  have t: "takeWhile (isRadixDigit 10) ds = ds"
    using assms(2) by (simp add: takeWhile_eq_all_conv list_all_iff)
  have s1: "(if ds \<noteq> [] \<and> (hd ds = CHR ''+'' \<or> hd ds = CHR ''-'') then tl ds else ds) = ds"
    using decimal_digit_is_plain(2,3) [OF d] by (simp add: ds)
  have sg: "(if ds \<noteq> [] \<and> hd ds = CHR ''-'' then - 1 else 1 :: int) = 1"
    using decimal_digit_is_plain(3) [OF d] by (simp add: ds)
  from nohex have nh: "(2 \<le> length ds \<and> (take 2 ds = ''0x'' \<or> take 2 ds = ''0X'')) = False"
    by blast
  show ?thesis
    unfolding parseInt_def Let_def w s1 sg nh
    using assms(1) by (simp add: t)
qed

text \<open>
  C6, as the claim has it, fails: \<open>1abc\<close> is not the string form of an integer, and it is
  not skipped. \<open>parseInt\<close> reads the \<open>1\<close> and ignores the rest, so the character at
  index \<open>1\<close> is taken.
\<close>

theorem malformed_index_is_resolved:
  "\<not> isIntegerString ''1abc'' \<and> charactersData [''1abc''] [alice, bob] = [bob]"
  by (simp add: isIntegerString_def isRadixDigit_def digitValue_def charactersData_def
        parseInt_examples)

text \<open>
  C6, amended. The step has no error: it is a total function to a list. Each index string is
  read by \<open>parseInt\<close>; it contributes the character at the number read when that number is
  an index of \<open>allCharacters\<close>, and nothing when \<open>parseInt\<close> gives \<open>NaN\<close> or a number
  out of range. The characters come in the order of the index strings.
\<close>

theorem characters_are_those_parseInt_resolves:
  "charactersData charIndexes allChars
   = concat (map (\<lambda>charIndex.
                    case parseInt charIndex of
                      None \<Rightarrow> []
                    | Some n \<Rightarrow> if 0 \<le> n \<and> n < int (length allChars) then [allChars ! nat n]
                                else [])
                 charIndexes)"
  by (simp add: charactersData_def charactersData_fold)

theorem characters_are_those_parseInt_resolves_witness:
  "charactersData [''1'', ''2'', ''x'', ''0''] [alice, bob] = [bob, alice]
 \<and> charactersData [''2''] [alice, bob] = []"
  using characters_are_those_parseInt_resolves [of "[''1'', ''2'', ''x'', ''0'']" "[alice, bob]"]
    characters_are_those_parseInt_resolves [of "[''2'']" "[alice, bob]"]
  by (simp add: parseInt_examples)

end
